theory Spec2Isabelle
  imports Complex_Main
begin

section \<open>JavaScript data\<close>

text \<open>
  The gateway is TypeScript; its codec works on untyped values (\<open>any\<close>). Two datatypes
  carry them. A \<open>node\<close> is the plain data an XML-RPC element is made of: what
  \<open>buildValue\<close> hands to the XML builder and what the XML parser hands to
  \<open>extractValue\<close> (strings, numbers, booleans, arrays, objects). A \<open>jsval\<close> is a value of
  the program: the same data, plus \<open>Date\<close> objects, \<open>null\<close> and \<open>undefined\<close>.

  A number is a rational or one of the three non-finite values. Every double is a
  rational, so the type holds all numbers of the program. The sign of zero is not kept:
  \<open>-0\<close> and \<open>0\<close> are equal under \<open>==\<close> and \<open>===\<close>, and every operation modelled here gives the
  same result on both.
  An object is the list of its own enumerable properties in property order: the names
  that are array indices first, in ascending order, then the other names in the order
  in which they were created. A property that is not in the list of a node reads as
  \<open>undefined\<close>, which is \<open>None\<close> here. \<open>VObj\<close> is an object whose prototype is
  \<open>Object.prototype\<close>, as \<open>{}\<close> makes it; \<open>VProto p ms\<close> is an object whose prototype has
  been replaced, by the object \<open>q\<close> when \<open>p\<close> is \<open>Some q\<close> and by \<open>null\<close> when \<open>p\<close> is \<open>None\<close>.
\<close>

datatype jsnum = Fin rat | NaN | PosInf | NegInf

datatype node = JStr string | JNum jsnum | JBool bool | JArr "node list"
  | JObj "(string \<times> node) list"

datatype jsval = Undefined | Null | VStr string | VNum jsnum | VBool bool
  | VDate "int option" | VArr "jsval list" | VObj "(string \<times> jsval) list"
  | VProto "jsval option" "(string \<times> jsval) list"
  | VBigInt int | VSymbol "string option" | VFunction string

text \<open>\<open>VDate None\<close> is an invalid date; \<open>VDate (Some t)\<close> has time value \<open>t\<close>, in milliseconds.
  A symbol has its description, or none. A function is taken with its source text, which
  is what the built-in conversion to a string gives.\<close>

datatype error = TypeError | RangeError | Error string

fun of_node :: "node \<Rightarrow> jsval" where
  "of_node (JStr s) = VStr s"
| "of_node (JNum x) = VNum x"
| "of_node (JBool b) = VBool b"
| "of_node (JArr xs) = VArr (map of_node xs)"
| "of_node (JObj ms) = VObj (map (\<lambda>(k, v). (k, of_node v)) ms)"

text \<open>Property read \<open>n.k\<close> on a node that is not \<open>undefined\<close>. The names read by the
  codec are no built-in property of a string, number, boolean or array, so only objects
  answer.\<close>

definition get_prop :: "node \<Rightarrow> string \<Rightarrow> node option" where
  "get_prop n k = (case n of JObj ms \<Rightarrow> map_of ms k | _ \<Rightarrow> None)"

text \<open>Truthiness (\<open>ToBoolean\<close>): what \<open>!x\<close>, \<open>x || y\<close>, \<open>if (x)\<close> and \<open>Boolean(x)\<close> test.\<close>

fun truthy :: "node option \<Rightarrow> bool" where
  "truthy None = False"
| "truthy (Some (JStr s)) = (s \<noteq> [])"
| "truthy (Some (JNum x)) = (x \<noteq> Fin 0 \<and> x \<noteq> NaN)"
| "truthy (Some (JBool b)) = b"
| "truthy (Some (JArr xs)) = True"
| "truthy (Some (JObj ms)) = True"

fun truthy_val :: "jsval \<Rightarrow> bool" where
  "truthy_val Undefined = False"
| "truthy_val Null = False"
| "truthy_val (VStr s) = (s \<noteq> [])"
| "truthy_val (VNum x) = (x \<noteq> Fin 0 \<and> x \<noteq> NaN)"
| "truthy_val (VBool b) = b"
| "truthy_val (VDate d) = True"
| "truthy_val (VArr xs) = True"
| "truthy_val (VObj ms) = True"
| "truthy_val (VProto p ms) = True"
| "truthy_val (VBigInt n) = (n \<noteq> 0)"
| "truthy_val (VSymbol d) = True"
| "truthy_val (VFunction src) = True"

subsection \<open>Arithmetic on doubles\<close>

text \<open>
  The result of an arithmetic operation is the double nearest to the exact result, ties
  going to the even significand. \<open>fl\<close> is that rounding, to 53 significant bits and with
  the subnormal spacing \<open>2\<^sup>-\<^sup>1\<^sup>0\<^sup>7\<^sup>4\<close> below \<open>2\<^sup>-\<^sup>1\<^sup>0\<^sup>2\<^sup>2\<close>, the exponent being unbounded above.
  A finite double is a rational that \<open>fl\<close> leaves as it is and that is below \<open>2\<^sup>1\<^sup>0\<^sup>2\<^sup>4\<close> in
  magnitude. \<open>to_double\<close> is the number value of a rational: the rounded value, or an
  infinity when that reaches \<open>2\<^sup>1\<^sup>0\<^sup>2\<^sup>4\<close>. The arithmetic of the statistics stays far
  below that and is done on rationals. A decimal literal of the source denotes the
  double nearest to it.
\<close>

function log2floor :: "int \<Rightarrow> int" where
  "log2floor n = (if n < 2 then 0 else 1 + log2floor (n div 2))"
  by pat_completeness auto
termination
  by (relation "measure nat") auto

declare log2floor.simps [simp del]

definition ilog2 :: "rat \<Rightarrow> int" where
  "ilog2 a = (if 1 \<le> a then log2floor \<lfloor>a\<rfloor> else - (log2floor (\<lceil>1 / a\<rceil> - 1) + 1))"

definition pow2 :: "int \<Rightarrow> rat" where
  "pow2 k = (if 0 \<le> k then 2 ^ nat k else 1 / 2 ^ nat (- k))"

definition round_half_even :: "rat \<Rightarrow> int" where
  "round_half_even m =
     (let f = \<lfloor>m\<rfloor>; d = m - of_int f
      in if d < 1 / 2 then f else if 1 / 2 < d then f + 1 else if even f then f else f + 1)"

definition fl :: "rat \<Rightarrow> rat" where
  "fl r =
     (if r = 0 then 0
      else (let a = \<bar>r\<bar>; q = pow2 (max (ilog2 a) (- 1022) - 52)
            in sgn r * of_int (round_half_even (a / q)) * q))"

definition is_double :: "rat \<Rightarrow> bool" where
  "is_double r = (fl r = r \<and> \<bar>r\<bar> < 2 ^ 1024)"

definition to_double :: "rat \<Rightarrow> jsnum" where
  "to_double r =
     (let x = fl r in if 2 ^ 1024 \<le> \<bar>x\<bar> then (if r < 0 then NegInf else PosInf) else Fin x)"

definition js_add :: "rat \<Rightarrow> rat \<Rightarrow> rat" where
  "js_add a b = fl (a + b)"

definition js_sub :: "rat \<Rightarrow> rat \<Rightarrow> rat" where
  "js_sub a b = fl (a - b)"

definition js_mul :: "rat \<Rightarrow> rat \<Rightarrow> rat" where
  "js_mul a b = fl (a * b)"

subsection \<open>Numerals\<close>

definition digit_char :: "int \<Rightarrow> char" where
  "digit_char d = ''0123456789'' ! nat d"

definition is_digit :: "char \<Rightarrow> bool" where
  "is_digit c = (c \<in> set ''0123456789'')"

definition digit_val :: "char \<Rightarrow> int" where
  "digit_val c = of_char c - 48"

text \<open>The decimal numeral of a natural number, and the number a string of digits denotes.\<close>

function digits :: "int \<Rightarrow> string" where
  "digits n = (if n < 10 then [digit_char n] else digits (n div 10) @ [digit_char (n mod 10)])"
  by pat_completeness auto
termination
  by (relation "measure nat") auto

declare digits.simps [simp del]

definition read_digits :: "string \<Rightarrow> int" where
  "read_digits ds = foldl (\<lambda>a c. 10 * a + digit_val c) 0 ds"

definition is_space :: "char \<Rightarrow> bool" where
  "is_space c = (c \<in> set [CHR 0x09, CHR 0x0A, CHR 0x0B, CHR 0x0C, CHR 0x0D, CHR '' ''])"

definition Number_isInteger :: "jsnum \<Rightarrow> bool" where
  "Number_isInteger x = (case x of Fin r \<Rightarrow> of_int \<lfloor>r\<rfloor> = r | _ \<Rightarrow> False)"

text \<open>
  \<open>Number::toString\<close>. ECMAScript prints a finite number \<open>x\<close> that is not zero from
  integers \<open>n\<close>, \<open>k\<close> and \<open>s\<close>, where \<open>s\<close> has \<open>k\<close> digits, \<open>s \<times> 10\<^sup>n\<^sup>-\<^sup>k\<close> rounds to the double \<open>x\<close>
  and \<open>k\<close> is as small as possible; of several such \<open>s\<close> it takes the one nearest to
  \<open>x\<close>, the even one of two that are equally near. \<open>shortest_from\<close> is that search by the
  exponent \<open>p = n - k\<close>, going down from the exponent of the leading digit: at each
  exponent the two multiples of \<open>10\<^sup>p\<close> around \<open>x\<close> are tried, the nearer one first. A
  double is a multiple of \<open>2\<^sup>-\<^sup>1\<^sup>0\<^sup>7\<^sup>4\<close>, so at the exponent -1074 at the latest the lower
  one is \<open>x\<close> itself; the search ends there. The digits are then laid out: an integer
  below \<open>10\<^sup>2\<^sup>1\<close> as digits followed by zeros, another number with \<open>0 < n \<le> 21\<close> with a
  point after \<open>n\<close> digits, one with \<open>-6 < n \<le> 0\<close> as \<open>0.\<close>, \<open>-n\<close> zeros and the digits, and
  everything else in exponent notation, \<open>1e+21\<close> being the first integer printed so.
\<close>

definition strip_zeros :: "string \<Rightarrow> string" where
  "strip_zeros ds = rev (dropWhile (\<lambda>c. c = CHR ''0'') (rev ds))"

definition pow10 :: "int \<Rightarrow> rat" where
  "pow10 e = (if 0 \<le> e then 10 ^ nat e else 1 / 10 ^ nat (- e))"

text \<open>The number of zeros between the point and the first digit of \<open>0 < a < 1\<close>; the
  smallest double has 323 of them.\<close>

fun lead_zeros :: "nat \<Rightarrow> rat \<Rightarrow> nat" where
  "lead_zeros 0 a = 0"
| "lead_zeros (Suc fuel) a = (if 1 \<le> a * 10 then 0 else Suc (lead_zeros fuel (a * 10)))"

text \<open>The decimal exponent \<open>n\<close> of \<open>a > 0\<close>: \<open>10\<^sup>n\<^sup>-\<^sup>1 \<le> a < 10\<^sup>n\<close>.\<close>

definition dec_exp :: "rat \<Rightarrow> int" where
  "dec_exp a = (if 1 \<le> a then int (length (digits \<lfloor>a\<rfloor>)) else - int (lead_zeros 400 a))"

definition rounds_to :: "rat \<Rightarrow> int \<times> int \<Rightarrow> bool" where
  "rounds_to a sp = (fl (of_int (fst sp) * pow10 (snd sp)) = a)"

definition cands :: "rat \<Rightarrow> int \<Rightarrow> (int \<times> int) list" where
  "cands a p =
     (let lo = \<lfloor>a / pow10 p\<rfloor>; hi = lo + 1;
          below = a - of_int lo * pow10 p; above = of_int hi * pow10 p - a
      in if below < above \<or> (below = above \<and> even lo) then [(lo, p), (hi, p)]
         else [(hi, p), (lo, p)])"

function shortest_from :: "rat \<Rightarrow> int \<Rightarrow> int \<times> int" where
  "shortest_from a p =
     (case find (rounds_to a) (cands a p) of
        Some sp \<Rightarrow> sp
      | None \<Rightarrow> if p \<le> - 1074 then (\<lfloor>a / pow10 p\<rfloor>, p) else shortest_from a (p - 1))"
  by pat_completeness auto
termination
  by (relation "measure (\<lambda>(a, p). nat (p + 1074))") auto

declare shortest_from.simps [simp del]

text \<open>The digits of \<open>s\<close> without the zeros at the end, and the exponent \<open>n\<close>.\<close>

definition shortest_digits :: "rat \<Rightarrow> string \<times> int" where
  "shortest_digits a =
     (let sp = shortest_from a (dec_exp a - 1); ds = digits (fst sp)
      in (strip_zeros ds, int (length ds) + snd sp))"

definition format_number :: "string \<times> int \<Rightarrow> string" where
  "format_number p =
     (let ds = fst p; n = snd p; k = int (length ds)
      in if k \<le> n \<and> n \<le> 21 then ds @ replicate (nat (n - k)) (CHR ''0'')
         else if 0 < n \<and> n \<le> 21 then take (nat n) ds @ ''.'' @ drop (nat n) ds
         else if - 6 < n \<and> n \<le> 0 then ''0.'' @ replicate (nat (- n)) (CHR ''0'') @ ds
         else (let e = n - 1;
                   es = (if e < 0 then ''-'' else ''+'') @ digits \<bar>e\<bar>
               in if k = 1 then ds @ ''e'' @ es
                  else take 1 ds @ ''.'' @ drop 1 ds @ ''e'' @ es))"

definition Number_toString :: "jsnum \<Rightarrow> string" where
  "Number_toString x =
     (case x of
        NaN \<Rightarrow> ''NaN''
      | PosInf \<Rightarrow> ''Infinity''
      | NegInf \<Rightarrow> ''-Infinity''
      | Fin r \<Rightarrow>
          (if r = 0 then ''0''
           else (if r < 0 then ''-'' else []) @ format_number (shortest_digits \<bar>r\<bar>)))"

text \<open>\<open>ToString\<close> of a node: an array joins the strings of its elements with commas, a
  plain object prints as \<open>[object Object]\<close>.\<close>

fun join_comma :: "string list \<Rightarrow> string" where
  "join_comma [] = []"
| "join_comma [s] = s"
| "join_comma (s # t # ss) = s @ '','' @ join_comma (t # ss)"

fun ToString :: "node \<Rightarrow> string" where
  "ToString (JStr s) = s"
| "ToString (JNum x) = Number_toString x"
| "ToString (JBool b) = (if b then ''true'' else ''false'')"
| "ToString (JArr xs) = join_comma (map ToString xs)"
| "ToString (JObj ms) = ''[object Object]''"

text \<open>\<open>parseInt(x, 10)\<close>: the argument is turned into a string first; leading white space
  and one sign are skipped, and the digits up to the first character that is none are
  read. No digit at all gives \<open>NaN\<close>. The result is the number value of the integer
  read.\<close>

definition parseInt_str :: "string \<Rightarrow> jsnum" where
  "parseInt_str s =
     (let t = dropWhile is_space s;
          neg = (take 1 t = ''-'');
          u = (if take 1 t = ''-'' \<or> take 1 t = ''+'' then drop 1 t else t);
          ds = takeWhile is_digit u
      in if ds = [] then NaN
         else to_double (of_int ((if neg then - 1 else 1) * read_digits ds)))"

definition parseInt :: "node \<Rightarrow> jsnum" where
  "parseInt x = parseInt_str (ToString x)"

text \<open>\<open>parseFloat(x)\<close>: the argument is turned into a string first, and the longest
  decimal literal that the string starts with is read, after white space: a sign, digits
  with or without a point, an exponent, or \<open>Infinity\<close>. The result is the number value
  of the literal.\<close>

definition parseFloat_str :: "string \<Rightarrow> jsnum" where
  "parseFloat_str s =
     (let t = dropWhile is_space s;
          neg = (take 1 t = ''-'');
          u = (if take 1 t = ''-'' \<or> take 1 t = ''+'' then drop 1 t else t);
          ip = takeWhile is_digit u;
          u1 = dropWhile is_digit u;
          fp = (if take 1 u1 = ''.'' then takeWhile is_digit (drop 1 u1) else []);
          u2 = (if take 1 u1 = ''.'' then dropWhile is_digit (drop 1 u1) else u1);
          u3 = drop 1 u2;
          eneg = (take 1 u3 = ''-'');
          u4 = (if take 1 u3 = ''-'' \<or> take 1 u3 = ''+'' then drop 1 u3 else u3);
          ed = (if take 1 u2 = ''e'' \<or> take 1 u2 = ''E'' then takeWhile is_digit u4 else []);
          m = of_int (read_digits ip) + of_int (read_digits fp) / 10 ^ length fp;
          v = (if eneg then m / 10 ^ nat (read_digits ed) else m * 10 ^ nat (read_digits ed))
      in if take 8 u = ''Infinity'' then (if neg then NegInf else PosInf)
         else if ip = [] \<and> fp = [] then NaN
         else to_double (if neg then - v else v))"

definition parseFloat :: "node \<Rightarrow> jsnum" where
  "parseFloat x = parseFloat_str (ToString x)"

subsection \<open>Dates\<close>

text \<open>
  \<open>Date.prototype.toISOString\<close> and the \<open>Date\<close> constructor, from the ECMAScript
  definitions of \<open>Day\<close>, \<open>DayFromYear\<close>, \<open>YearFromTime\<close>, \<open>MonthFromTime\<close> and
  \<open>DateFromTime\<close>. A time value is an integer number of milliseconds since the epoch,
  at most \<open>8.64 \<times> 10\<^sup>1\<^sup>5\<close> in magnitude. The year is printed with four digits from 0 to
  9999 and with a sign and six digits otherwise. Of the date strings the constructor
  accepts the model reads the one form \<open>toISOString\<close> prints; every other string is an
  invalid date here (ECMAScript also reads shortened forms and leaves the rest to the
  implementation).
\<close>

definition msPerDay :: int where
  "msPerDay = 86400000"

definition maxTime :: int where
  "maxTime = 8640000000000000"

definition DayFromYear :: "int \<Rightarrow> int" where
  "DayFromYear y = 365 * (y - 1970) + (y - 1969) div 4 - (y - 1901) div 100 + (y - 1601) div 400"

definition InLeapYear :: "int \<Rightarrow> int" where
  "InLeapYear y = (if y mod 4 \<noteq> 0 then 0 else if y mod 100 \<noteq> 0 then 1
                   else if y mod 400 \<noteq> 0 then 0 else 1)"

definition YearFromDay :: "int \<Rightarrow> int" where
  "YearFromDay d =
     (let y = 1970 + (400 * d) div 146097
      in if DayFromYear (y + 1) \<le> d then y + 1 else if d < DayFromYear y then y - 1 else y)"

definition month_starts :: "int \<Rightarrow> int list" where
  "month_starts l = [0, 31, 59 + l, 90 + l, 120 + l, 151 + l, 181 + l, 212 + l, 243 + l,
                     273 + l, 304 + l, 334 + l]"

definition MonthFromDay :: "int \<Rightarrow> int \<Rightarrow> nat" where
  "MonthFromDay dwy l = length (filter (\<lambda>s. s \<le> dwy) (month_starts l)) - 1"

definition pad :: "nat \<Rightarrow> int \<Rightarrow> string" where
  "pad k n = replicate (k - length (digits n)) (CHR ''0'') @ digits n"

definition year_string :: "int \<Rightarrow> string" where
  "year_string y = (if 0 \<le> y \<and> y \<le> 9999 then pad 4 y
                    else (if y < 0 then ''-'' else ''+'') @ pad 6 \<bar>y\<bar>)"

definition toISOString :: "int \<Rightarrow> string" where
  "toISOString t =
     (let day = t div msPerDay; tw = t mod msPerDay;
          y = YearFromDay day; dwy = day - DayFromYear y; l = InLeapYear y;
          m = MonthFromDay dwy l; d = dwy - month_starts l ! m + 1
      in year_string y @ ''-'' @ pad 2 (int m + 1) @ ''-'' @ pad 2 d @ ''T''
         @ pad 2 (tw div 3600000) @ '':'' @ pad 2 (tw div 60000 mod 60) @ '':''
         @ pad 2 (tw div 1000 mod 60) @ ''.'' @ pad 3 (tw mod 1000) @ ''Z'')"

definition Date_parse :: "string \<Rightarrow> int option" where
  "Date_parse s =
     (let signed = (take 1 s = ''+'' \<or> take 1 s = ''-'');
          ys = (if signed then take 6 (drop 1 s) else take 4 s);
          r = drop (if signed then 7 else 4) s;
          mo = take 2 (drop 1 r); dd = take 2 (drop 4 r); hh = take 2 (drop 7 r);
          mi = take 2 (drop 10 r); ss = take 2 (drop 13 r); ms = take 3 (drop 16 r);
          y = (if take 1 s = ''-'' then - read_digits ys else read_digits ys);
          l = InLeapYear y;
          m = read_digits mo; d = read_digits dd; h = read_digits hh;
          t = (DayFromYear y + month_starts l ! nat (m - 1) + d - 1) * msPerDay
              + h * 3600000 + read_digits mi * 60000 + read_digits ss * 1000 + read_digits ms
      in if length r = 20 \<and> length ys = (if signed then 6 else 4)
            \<and> map (\<lambda>i. r ! i) [0, 3, 6, 9, 12, 15, 19] = ''--T::.Z''
            \<and> list_all is_digit (ys @ mo @ dd @ hh @ mi @ ss @ ms)
            \<and> \<not> (take 1 s = ''-'' \<and> read_digits ys = 0)
            \<and> 1 \<le> m \<and> m \<le> 12
            \<and> 1 \<le> d \<and> d \<le> (month_starts l @ [365 + l]) ! nat m - month_starts l ! nat (m - 1)
            \<and> (h \<le> 23 \<or> h = 24 \<and> read_digits mi = 0 \<and> read_digits ss = 0 \<and> read_digits ms = 0)
            \<and> read_digits mi \<le> 59 \<and> read_digits ss \<le> 59
            \<and> \<bar>t\<bar> \<le> maxTime
         then Some t else None)"

text \<open>\<open>new Date(x)\<close> for a node \<open>x\<close>: a string is parsed, a number or boolean is the time
  value itself (cut to an integer, invalid beyond the range), an array or object is
  turned into its string first.\<close>

definition Date_new :: "node \<Rightarrow> int option" where
  "Date_new x =
     (case x of
        JStr s \<Rightarrow> Date_parse s
      | JNum (Fin r) \<Rightarrow> (if \<bar>r\<bar> \<le> of_int maxTime then Some (if 0 \<le> r then \<lfloor>r\<rfloor> else \<lceil>r\<rceil>) else None)
      | JNum _ \<Rightarrow> None
      | JBool b \<Rightarrow> Some (if b then 1 else 0)
      | _ \<Rightarrow> Date_parse (ToString x))"

section \<open>The XML-RPC codec (\<open>XmlRpcClient\<close>)\<close>

text \<open>A \<open>map\<close> whose callback can throw: the first exception ends it.\<close>

fun mapE :: "('a \<Rightarrow> error + 'b) \<Rightarrow> 'a list \<Rightarrow> error + 'b list" where
  "mapE f [] = Inr []"
| "mapE f (x # xs) =
     (case f x of
        Inl e \<Rightarrow> Inl e
      | Inr y \<Rightarrow> (case mapE f xs of Inl e \<Rightarrow> Inl e | Inr ys \<Rightarrow> Inr (y # ys)))"

lemma mapE_cong [fundef_cong]:
  assumes "xs = ys" and "\<And>x. x \<in> set ys \<Longrightarrow> f x = g x"
  shows "mapE f xs = mapE g ys"
proof -
  have "mapE f ys = mapE g ys"
    using assms(2) by (induction ys) (simp_all cong: sum.case_cong)
  with assms(1) show ?thesis by simp
qed

subsection \<open>\<open>buildValue\<close>\<close>

text \<open>
  The branches are those of the source, in its order: string, number (integer or not),
  boolean, \<open>Date\<close>, array, object, and the final \<open>String(value)\<close> for what is left:
  \<open>undefined\<close>, \<open>null\<close>, a bigint (its decimal numeral), a symbol (\<open>Symbol(\<close>, the
  description and \<open>)\<close>) and a function (its source text). \<open>toISOString\<close> throws a
  \<open>RangeError\<close> on an invalid date. \<open>Object.entries\<close> lists the own properties in
  property order, whatever the prototype of the object is.
\<close>

fun buildValue :: "jsval \<Rightarrow> error + node" where
  "buildValue (VStr s) = Inr (JObj [(''string'', JStr s)])"
| "buildValue (VNum x) =
     (if Number_isInteger x then Inr (JObj [(''int'', JNum x)])
      else Inr (JObj [(''double'', JNum x)]))"
| "buildValue (VBool b) = Inr (JObj [(''boolean'', JNum (Fin (if b then 1 else 0)))])"
| "buildValue (VDate d) =
     (case d of
        None \<Rightarrow> Inl RangeError
      | Some t \<Rightarrow> Inr (JObj [(''dateTime.iso8601'', JStr (toISOString t))]))"
| "buildValue (VArr items) =
     (case mapE buildValue items of
        Inl e \<Rightarrow> Inl e
      | Inr ns \<Rightarrow> Inr (JObj [(''array'', JObj [(''data'', JObj [(''value'', JArr ns)])])]))"
| "buildValue (VObj entries) =
     (case mapE (\<lambda>(name, val).
                   case buildValue val of
                     Inl e \<Rightarrow> Inl e
                   | Inr n \<Rightarrow> Inr (JObj [(''name'', JStr name), (''value'', n)])) entries of
        Inl e \<Rightarrow> Inl e
      | Inr members \<Rightarrow> Inr (JObj [(''struct'', JObj [(''member'', JArr members)])]))"
| "buildValue (VProto p entries) =
     (case mapE (\<lambda>(name, val).
                   case buildValue val of
                     Inl e \<Rightarrow> Inl e
                   | Inr n \<Rightarrow> Inr (JObj [(''name'', JStr name), (''value'', n)])) entries of
        Inl e \<Rightarrow> Inl e
      | Inr members \<Rightarrow> Inr (JObj [(''struct'', JObj [(''member'', JArr members)])]))"
| "buildValue Undefined = Inr (JObj [(''string'', JStr ''undefined'')])"
| "buildValue Null = Inr (JObj [(''string'', JStr ''null'')])"
| "buildValue (VBigInt n) =
     Inr (JObj [(''string'', JStr ((if n < 0 then ''-'' else []) @ digits \<bar>n\<bar>))])"
| "buildValue (VSymbol d) =
     Inr (JObj [(''string'',
                 JStr (''Symbol('' @ (case d of None \<Rightarrow> [] | Some t \<Rightarrow> t) @ '')''))])"
| "buildValue (VFunction src) = Inr (JObj [(''string'', JStr src)])"

subsection \<open>\<open>extractValue\<close>\<close>

text \<open>\<open>Array.isArray(x) ? x : [x]\<close>, for a node and for a property that may be missing.\<close>

definition as_list :: "node \<Rightarrow> node list" where
  "as_list x = (case x of JArr xs \<Rightarrow> xs | _ \<Rightarrow> [x])"

definition as_list_opt :: "node option \<Rightarrow> node option list" where
  "as_list_opt x = (case x of Some (JArr xs) \<Rightarrow> map Some xs | _ \<Rightarrow> [x])"

text \<open>The property key of \<open>result[name]\<close>: the string of \<open>name\<close>.\<close>

definition ToPropertyKey :: "node option \<Rightarrow> string" where
  "ToPropertyKey x = (case x of None \<Rightarrow> ''undefined'' | Some n \<Rightarrow> ToString n)"

text \<open>
  The assignment \<open>result[key] = v\<close> on the object \<open>result\<close>, which \<open>{}\<close> made
  (\<open>OrdinarySet\<close>). The property is looked for in \<open>result\<close> and then along its prototypes.
  Every property found there is a writable data property, so the assignment defines
  the own property \<open>key\<close> of \<open>result\<close>: an existing property keeps its place and gets the
  new value; a new one whose name is an array index goes among the indices, in
  ascending order; any other new one goes last. The one exception is the name
  \<open>__proto__\<close>, an accessor of \<open>Object.prototype\<close>. When the search reaches it (no object
  on the way has a property of that name, and the chain does not end in \<open>null\<close> before),
  its setter runs: it replaces the prototype of \<open>result\<close> when \<open>v\<close> is an object or
  \<open>null\<close>, and does nothing otherwise. No own property is created then.
\<close>

text \<open>An array index is the decimal numeral, without leading zeros, of an integer from 0
  to \<open>2\<^sup>3\<^sup>2 - 2\<close>.\<close>

definition is_index :: "string \<Rightarrow> bool" where
  "is_index k = (k \<noteq> [] \<and> list_all is_digit k \<and> (k = ''0'' \<or> take 1 k \<noteq> ''0'')
                 \<and> read_digits k < 4294967295)"

fun insert_index :: "(string \<times> 'v) list \<Rightarrow> string \<Rightarrow> 'v \<Rightarrow> (string \<times> 'v) list" where
  "insert_index [] k v = [(k, v)]"
| "insert_index ((k', v') # ms) k v =
     (if is_index k' \<and> read_digits k' < read_digits k then (k', v') # insert_index ms k v
      else (k, v) # (k', v') # ms)"

definition obj_set :: "(string \<times> 'v) list \<Rightarrow> string \<Rightarrow> 'v \<Rightarrow> (string \<times> 'v) list" where
  "obj_set ms k v =
     (if k \<in> set (map fst ms) then map (\<lambda>(k', v'). if k' = k then (k', v) else (k', v')) ms
      else if is_index k then insert_index ms k v
      else ms @ [(k, v)])"

text \<open>The data property \<open>k\<close> found in an object or along its replaced prototypes, for a
  name \<open>k\<close> that no built-in prototype and no array or date defines.\<close>

fun lookup :: "jsval \<Rightarrow> string \<Rightarrow> jsval option" where
  "lookup (VObj ms) k = map_of ms k"
| "lookup (VProto None ms) k = map_of ms k"
| "lookup (VProto (Some q) ms) k = (case map_of ms k of Some v \<Rightarrow> Some v | None \<Rightarrow> lookup q k)"
| "lookup v k = None"

text \<open>Whether the prototype chain of an object ends in \<open>Object.prototype\<close>.\<close>

fun inherits_Object :: "jsval \<Rightarrow> bool" where
  "inherits_Object (VObj ms) = True"
| "inherits_Object (VArr xs) = True"
| "inherits_Object (VDate d) = True"
| "inherits_Object (VProto None ms) = False"
| "inherits_Object (VProto (Some q) ms) = inherits_Object q"
| "inherits_Object (VFunction src) = True"
| "inherits_Object v = False"

definition is_object :: "jsval \<Rightarrow> bool" where
  "is_object v = (case v of VDate d \<Rightarrow> True | VArr xs \<Rightarrow> True | VObj ms \<Rightarrow> True
                  | VProto p ms \<Rightarrow> True | VFunction src \<Rightarrow> True | _ \<Rightarrow> False)"

definition set_prototype :: "jsval \<Rightarrow> jsval option \<Rightarrow> jsval" where
  "set_prototype result p =
     (case result of VObj ms \<Rightarrow> VProto p ms | VProto p' ms \<Rightarrow> VProto p ms | _ \<Rightarrow> result)"

definition define_own :: "jsval \<Rightarrow> string \<Rightarrow> jsval \<Rightarrow> jsval" where
  "define_own result k v =
     (case result of VObj ms \<Rightarrow> VObj (obj_set ms k v) | VProto p ms \<Rightarrow> VProto p (obj_set ms k v)
      | _ \<Rightarrow> result)"

definition assign :: "jsval \<Rightarrow> string \<times> jsval \<Rightarrow> jsval" where
  "assign result kv =
     (let k = fst kv; v = snd kv
      in if k = ''__proto__'' \<and> lookup result k = None \<and> inherits_Object result then
           (if is_object v then set_prototype result (Some v)
            else if v = Null then set_prototype result None
            else result)
         else define_own result k v)"

lemma size_map_of:
  "map_of ms k = Some m \<Longrightarrow> size m < Suc (size_list (size_prod (\<lambda>_. 0) size) ms)"
  by (induction ms) (auto split: if_splits)

lemma size_get_prop: "get_prop n k = Some m \<Longrightarrow> size m < size n"
  by (cases n) (auto simp: get_prop_def dest: size_map_of)

lemma size_as_list: "x \<in> set (as_list w) \<Longrightarrow> size x \<le> size w"
  by (cases w) (auto simp: as_list_def dest: size_list_estimation' [where f = size, OF _ order_refl])

lemma size_as_list_opt:
  "Some x \<in> set (as_list_opt (Some w)) \<Longrightarrow> size x \<le> size w"
  by (cases w) (auto simp: as_list_opt_def dest: size_list_estimation' [where f = size, OF _ order_refl])

text \<open>
  The tags are tested in the order of the source. \<open>return valueNode.string\<close> returns what
  the property holds, whatever it is. A member that is \<open>undefined\<close> (a \<open>struct\<close> with no
  \<open>member\<close> property) makes \<open>member.name\<close> throw a \<open>TypeError\<close>.
\<close>

function extractValue :: "node option \<Rightarrow> error + jsval" where
  "extractValue valueNode =
     (case valueNode of
        None \<Rightarrow> Inr Null
      | Some n \<Rightarrow>
          if \<not> truthy (Some n) then Inr Null
          else (case get_prop n ''string'' of Some s \<Rightarrow> Inr (of_node s) | None \<Rightarrow>
          (case get_prop n ''int'' of Some i \<Rightarrow> Inr (VNum (parseInt i)) | None \<Rightarrow>
          (case get_prop n ''i4'' of Some i \<Rightarrow> Inr (VNum (parseInt i)) | None \<Rightarrow>
          (case get_prop n ''double'' of Some d \<Rightarrow> Inr (VNum (parseFloat d)) | None \<Rightarrow>
          (case get_prop n ''boolean'' of Some b \<Rightarrow> Inr (VBool (truthy (Some b))) | None \<Rightarrow>
          (case get_prop n ''dateTime.iso8601'' of Some d \<Rightarrow> Inr (VDate (Date_new d)) | None \<Rightarrow>
          (if truthy (get_prop n ''array'') then
            (case get_prop n ''array'' of
               None \<Rightarrow> Inr (VArr [])
             | Some a \<Rightarrow>
                 (case get_prop a ''data'' of
                    None \<Rightarrow> Inr (VArr [])
                  | Some dat \<Rightarrow>
                      if \<not> truthy (Some dat) \<or> \<not> truthy (get_prop dat ''value'') then Inr (VArr [])
                      else (case get_prop dat ''value'' of
                              None \<Rightarrow> Inr (VArr [])
                            | Some vs \<Rightarrow>
                                (case mapE (\<lambda>v. extractValue (Some v)) (as_list vs) of
                                   Inl e \<Rightarrow> Inl e
                                 | Inr values \<Rightarrow> Inr (VArr values)))))
          else if truthy (get_prop n ''struct'') then
            (case get_prop n ''struct'' of
               None \<Rightarrow> Inr Null
             | Some st \<Rightarrow>
                 (case mapE (\<lambda>member.
                               case member of
                                 None \<Rightarrow> Inl TypeError
                               | Some m \<Rightarrow>
                                   (case extractValue (get_prop m ''value'') of
                                      Inl e \<Rightarrow> Inl e
                                    | Inr v \<Rightarrow> Inr (ToPropertyKey (get_prop m ''name''), v)))
                        (as_list_opt (get_prop st ''member'')) of
                    Inl e \<Rightarrow> Inl e
                  | Inr kvs \<Rightarrow> Inr (foldl assign (VObj []) kvs)))
          else Inr Null))))))))"
  by pat_completeness auto
termination
proof (relation "measure (\<lambda>x. case x of None \<Rightarrow> 0 | Some n \<Rightarrow> size n)", goal_cases)
  case 1
  show ?case by simp
next
  case (2 valueNode n a dat vs v)
  then show ?case
    using size_get_prop [of n "''array''" a] size_get_prop [of a "''data''" dat]
      size_get_prop [of dat "''value''" vs] size_as_list [of v vs]
    by simp
next
  case (3 valueNode n st member m)
  then show ?case
  proof (cases "get_prop m ''value''")
    case None
    with 3 show ?thesis by (cases n) (auto simp: get_prop_def)
  next
    case (Some w)
    from 3 obtain ms where ms: "get_prop st ''member'' = Some ms"
      by (cases "get_prop st ''member''") (auto simp: as_list_opt_def)
    from 3 ms have "size m \<le> size ms"
      using size_as_list_opt [of m ms] by simp
    with 3 Some ms show ?thesis
      using size_get_prop [of n "''struct''" st] size_get_prop [of st "''member''" ms]
        size_get_prop [of m "''value''" w]
      by simp
  qed
qed

declare extractValue.simps [simp del]

text \<open>The callback of the struct loop of \<open>extractValue\<close>, under a name.\<close>

definition decode_member :: "node option \<Rightarrow> error + string \<times> jsval" where
  "decode_member member =
     (case member of
        None \<Rightarrow> Inl TypeError
      | Some m \<Rightarrow>
          (case extractValue (get_prop m ''value'') of
             Inl e \<Rightarrow> Inl e
           | Inr v \<Rightarrow> Inr (ToPropertyKey (get_prop m ''name''), v)))"

text \<open>Decoding the encoding of a value.\<close>

definition decode_encode :: "jsval \<Rightarrow> error + jsval" where
  "decode_encode v = (case buildValue v of Inl e \<Rightarrow> Inl e | Inr n \<Rightarrow> extractValue (Some n))"

text \<open>Property order: what comes before an array index is a smaller array index.\<close>

fun prop_order :: "string list \<Rightarrow> bool" where
  "prop_order (k # k' # ks) =
     ((is_index k' \<longrightarrow> is_index k \<and> read_digits k < read_digits k') \<and> prop_order (k' # ks))"
| "prop_order ks = True"

text \<open>
  The values on which the round trip is proved below: strings, booleans, valid dates,
  the numbers that come back from their own string (through \<open>parseInt\<close> when the number
  is integral, through \<open>parseFloat\<close> otherwise), and arrays and objects of such values, the
  objects with the prototype that \<open>{}\<close> gives and without a property named \<open>__proto__\<close>. An
  object of the program has each property name once, in property order.
\<close>

fun codec_value :: "jsval \<Rightarrow> bool" where
  "codec_value Undefined = False"
| "codec_value Null = False"
| "codec_value (VStr s) = True"
| "codec_value (VNum x) =
     (if Number_isInteger x then parseInt (JNum x) = x else parseFloat (JNum x) = x)"
| "codec_value (VBool b) = True"
| "codec_value (VDate d) = (case d of None \<Rightarrow> False | Some t \<Rightarrow> \<bar>t\<bar> \<le> maxTime)"
| "codec_value (VArr items) = list_all codec_value items"
| "codec_value (VObj entries) =
     (distinct (map fst entries) \<and> prop_order (map fst entries)
      \<and> ''__proto__'' \<notin> set (map fst entries)
      \<and> list_all (\<lambda>(name, val). codec_value val) entries)"
| "codec_value (VProto p entries) = False"
| "codec_value (VBigInt n) = False"
| "codec_value (VSymbol d) = False"
| "codec_value (VFunction src) = False"


subsection \<open>\<open>parseXmlRpcResponse\<close>\<close>

record UCIPRequest =
  methodName :: string
  params :: "jsval list"

record UCIPResponse =
  responseCode :: jsval
  responseMessage :: "jsval option"
  data :: "jsval option"

definition bindE :: "error + 'a \<Rightarrow> ('a \<Rightarrow> error + 'b) \<Rightarrow> error + 'b" where
  "bindE r f = (case r of Inl e \<Rightarrow> Inl e | Inr x \<Rightarrow> f x)"

text \<open>\<open>x?.k\<close> and \<open>x.k\<close> on a node that may be \<open>undefined\<close>: the second throws a
  \<open>TypeError\<close> there. \<open>x.k\<close> on a value throws on \<open>null\<close> and \<open>undefined\<close>; the
  property is looked for in the object and then along its prototypes, and one that is
  found nowhere reads as \<open>undefined\<close>.\<close>

definition chain :: "node option \<Rightarrow> string \<Rightarrow> node option" where
  "chain x k = (case x of None \<Rightarrow> None | Some n \<Rightarrow> get_prop n k)"

definition member_of :: "node option \<Rightarrow> string \<Rightarrow> error + node option" where
  "member_of x k = (case x of None \<Rightarrow> Inl TypeError | Some n \<Rightarrow> Inr (get_prop n k))"

definition val_get :: "jsval \<Rightarrow> string \<Rightarrow> jsval" where
  "val_get x k = (case lookup x k of None \<Rightarrow> Undefined | Some v \<Rightarrow> v)"

definition val_prop :: "jsval \<Rightarrow> string \<Rightarrow> error + jsval" where
  "val_prop x k = (if x = Undefined \<or> x = Null then Inl TypeError else Inr (val_get x k))"

text \<open>\<open>a || b\<close>.\<close>

definition or_else :: "jsval \<Rightarrow> jsval \<Rightarrow> jsval" where
  "or_else a b = (if truthy_val a then a else b)"

text \<open>
  The XML parser is a library; the model takes it as the function \<open>parse\<close> from the
  response text to the parsed document (or an exception). The \<open>catch\<close> block logs and
  rethrows, so an exception leaves the function as it arose.
\<close>

definition parseXmlRpcResponse :: "(string \<Rightarrow> error + node) \<Rightarrow> string \<Rightarrow> error + UCIPResponse" where
  "parseXmlRpcResponse parse xml =
     bindE (parse xml) (\<lambda>parsed.
       let methodResponse = get_prop parsed ''methodResponse''
       in if truthy (chain methodResponse ''fault'') then
            bindE (member_of methodResponse ''fault'') (\<lambda>f.
            bindE (member_of f ''value'') (\<lambda>v.
            bindE (extractValue v) (\<lambda>fault.
            bindE (val_prop fault ''faultCode'') (\<lambda>faultCode.
            bindE (val_prop fault ''faultString'') (\<lambda>faultString.
              Inr \<lparr>responseCode = or_else faultCode (VNum (Fin (- 1))),
                   responseMessage = Some (or_else faultString (VStr ''Unknown fault'')),
                   data = None\<rparr>)))))
          else if truthy (chain methodResponse ''params'') then
            bindE (member_of methodResponse ''params'') (\<lambda>ps.
            bindE (member_of ps ''param'') (\<lambda>params.
            bindE (mapE (\<lambda>param. bindE (member_of param ''value'') extractValue)
                     (as_list_opt params)) (\<lambda>dat.
              Inr \<lparr>responseCode = VNum (Fin 0),
                   responseMessage = None,
                   data = Some (if length dat = 1 then dat ! 0 else VArr dat)\<rparr>)))
          else Inl (Error ''Invalid XML-RPC response format''))"

subsection \<open>\<open>call\<close>\<close>

text \<open>
  The client's collaborators are the XML builder and parser and the HTTP client. They
  are parameters of the model, gathered in a record; \<open>'w\<close> is the state of the world
  outside the process. A POST takes the world to a new one and yields a response, or
  an exception when no response arrives (a timeout, a refused connection); the client
  is configured with \<open>validateStatus: () => true\<close>, so no status raises by itself.
  \<open>clock\<close> is \<open>Date.now()\<close> and \<open>random\<close> is \<open>Math.random()\<close>.
\<close>

record http_response =
  status :: int
  statusText :: string
  response_data :: string

record 'w io =
  xml_build :: "node \<Rightarrow> string"
  xml_parse :: "string \<Rightarrow> error + node"
  http_post :: "'w \<Rightarrow> string \<Rightarrow> string \<Rightarrow> (error + http_response) \<times> 'w"
  clock :: "'w \<Rightarrow> int"
  random :: "'w \<Rightarrow> rat"

record XmlRpcClientConfig =
  host :: string
  port :: int
  path :: "string option"
  timeout :: "int option"
  maxConnections :: "int option"

record XmlRpcClient =
  config :: XmlRpcClientConfig
  url :: string

text \<open>The constructor: \<open>config.path || '/Air'\<close>, \<open>config.timeout || 30000\<close>,
  \<open>config.maxConnections || 20\<close>, and the URL from host, port and path.\<close>

definition new_XmlRpcClient :: "XmlRpcClientConfig \<Rightarrow> XmlRpcClient" where
  "new_XmlRpcClient c =
     (let p = (case path c of Some s \<Rightarrow> (if s \<noteq> [] then s else ''/Air'') | None \<Rightarrow> ''/Air'');
          t = (case timeout c of Some n \<Rightarrow> (if n \<noteq> 0 then n else 30000) | None \<Rightarrow> 30000);
          m = (case maxConnections c of Some n \<Rightarrow> (if n \<noteq> 0 then n else 20) | None \<Rightarrow> 20)
      in \<lparr>config = c\<lparr>path := Some p, timeout := Some t, maxConnections := Some m\<rparr>,
          url = ''http://'' @ host c @ '':'' @ Number_toString (Fin (of_int (port c))) @ p\<rparr>)"

definition buildXmlRpcRequest :: "'w io \<Rightarrow> UCIPRequest \<Rightarrow> error + string" where
  "buildXmlRpcRequest io request =
     bindE (mapE (\<lambda>param. bindE (buildValue param) (\<lambda>v. Inr (JObj [(''value'', v)])))
              (params request)) (\<lambda>ps.
       Inr (xml_build io
              (JObj [(''methodCall'',
                      JObj [(''methodName'', JStr (methodName request)),
                            (''params'', JObj [(''param'', JArr ps)])])])))"

definition call :: "'w io \<Rightarrow> 'w \<Rightarrow> XmlRpcClient \<Rightarrow> UCIPRequest \<Rightarrow> (error + UCIPResponse) \<times> 'w" where
  "call io w client request =
     (case buildXmlRpcRequest io request of
        Inl e \<Rightarrow> (Inl e, w)
      | Inr requestBody \<Rightarrow>
          (case http_post io w (url client) requestBody of
             (Inl e, w') \<Rightarrow> (Inl e, w')
           | (Inr response, w') \<Rightarrow>
               if status response \<noteq> 200 then
                 (Inl (Error (''HTTP '' @ Number_toString (Fin (of_int (status response)))
                              @ '': '' @ statusText response)), w')
               else (parseXmlRpcResponse (xml_parse io) (response_data response), w')))"

section \<open>The gateway (\<open>AIRService\<close>)\<close>

text \<open>
  A \<open>Map\<close> is the list of its entries in insertion order: \<open>set\<close> on a key that is there
  keeps its place, \<open>values().next().value\<close> is the first entry's value. The counters of
  the statistics are natural numbers; the average is a double.
\<close>

definition Map_get :: "('k \<times> 'v) list \<Rightarrow> 'k \<Rightarrow> 'v option" where
  "Map_get m k = map_of m k"

definition Map_set :: "('k \<times> 'v) list \<Rightarrow> 'k \<Rightarrow> 'v \<Rightarrow> ('k \<times> 'v) list" where
  "Map_set m k v = (if k \<in> set (map fst m)
                    then map (\<lambda>(k', v'). if k' = k then (k, v) else (k', v')) m
                    else m @ [(k, v)])"

record AirNodeConfig =
  nodeId :: string
  node_host :: string
  node_port :: int
  afType :: "string option"
  active :: bool

record RoutingDestination =
  dest_nodeId :: string
  dest_host :: string
  dest_port :: int
  dest_url :: string
  dest_active :: bool

record TransactionStats =
  totalRequests :: nat
  successfulRequests :: nat
  failedRequests :: nat
  averageResponseTime :: rat
  lastResetTime :: int

record AIRService =
  clients :: "(string \<times> XmlRpcClient) list"
  routingTable :: "(string \<times> RoutingDestination list) list"
  roundRobinIndexes :: "(string \<times> nat) list"
  stats :: TransactionStats
  statsInterval :: bool
  initialized :: bool

text \<open>The configuration read by the service: \<open>config.environment\<close>,
  \<open>config.air.requestTimeout\<close> and \<open>config.air.maxConnectionsPerRoute\<close>.\<close>

record app_config =
  environment :: string
  requestTimeout :: int
  maxConnectionsPerRoute :: int

definition new_AIRService :: "int \<Rightarrow> AIRService" where
  "new_AIRService now =
     \<lparr>clients = [], routingTable = [], roundRobinIndexes = [],
      stats = \<lparr>totalRequests = 0, successfulRequests = 0, failedRequests = 0,
               averageResponseTime = 0, lastResetTime = now\<rparr>,
      statsInterval = False, initialized = False\<rparr>"

text \<open>An optional string argument is truthy when it is given and not empty.\<close>

definition given :: "string option \<Rightarrow> bool" where
  "given x = (case x of None \<Rightarrow> False | Some s \<Rightarrow> s \<noteq> [])"

text \<open>One round of the loop of \<open>initialize\<close> over the nodes.\<close>

definition add_node :: "app_config \<Rightarrow> AIRService \<Rightarrow> AirNodeConfig \<Rightarrow> AIRService" where
  "add_node cfg s node =
     (let client = new_XmlRpcClient
                     \<lparr>host = node_host node, port = node_port node, path = Some ''/Air'',
                      timeout = Some (requestTimeout cfg),
                      maxConnections = Some (maxConnectionsPerRoute cfg)\<rparr>;
          s1 = s\<lparr>clients := Map_set (clients s) (nodeId node) client\<rparr>
      in case afType node of
           None \<Rightarrow> s1
         | Some k \<Rightarrow>
             if k = [] then s1
             else
               (let s2 = (if Map_get (routingTable s1) k = None
                          then s1\<lparr>routingTable := Map_set (routingTable s1) k [],
                                  roundRobinIndexes := Map_set (roundRobinIndexes s1) k 0\<rparr>
                          else s1);
                    destination =
                      \<lparr>dest_nodeId = nodeId node, dest_host = node_host node,
                       dest_port = node_port node,
                       dest_url = ''http://'' @ node_host node @ '':''
                                  @ Number_toString (Fin (of_int (node_port node))) @ ''/Air'',
                       dest_active = active node\<rparr>
                in s2\<lparr>routingTable :=
                        Map_set (routingTable s2) k
                          (case Map_get (routingTable s2) k of
                             None \<Rightarrow> [destination]
                           | Some ds \<Rightarrow> ds @ [destination])\<rparr>))"

text \<open>\<open>initialize\<close>; \<open>airNodes\<close> is what
  \<open>inDefs.getAirNodesByEnvironment(config.environment)\<close> returns.\<close>

definition initialize :: "app_config \<Rightarrow> AirNodeConfig list \<Rightarrow> AIRService \<Rightarrow> error + AIRService" where
  "initialize cfg airNodes s =
     (if initialized s then Inr s
      else if length airNodes = 0 then
        Inl (Error (''No AIR nodes configured for environment: '' @ environment cfg))
      else Inr ((foldl (add_node cfg) s airNodes)\<lparr>statsInterval := True, initialized := True\<rparr>))"

text \<open>\<open>getClient\<close> returns the client or throws, and leaves the service in a new state:
  the cursor of the routing key moves before the client is looked up.\<close>

definition getClient :: "AIRService \<Rightarrow> string option \<Rightarrow> string option \<Rightarrow> (error + XmlRpcClient) \<times> AIRService" where
  "getClient s nodeId' afType' =
     (if given nodeId' then
        (case Map_get (clients s) (the nodeId') of
           None \<Rightarrow> (Inl (Error (''AIR client not found for node: '' @ the nodeId')), s)
         | Some client \<Rightarrow> (Inr client, s))
      else if given afType' then
        (case Map_get (routingTable s) (the afType') of
           None \<Rightarrow> (Inl (Error (''No destinations found for AF type: '' @ the afType')), s)
         | Some destinations \<Rightarrow>
             if length destinations = 0 then
               (Inl (Error (''No destinations found for AF type: '' @ the afType')), s)
             else
               (let index = (case Map_get (roundRobinIndexes s) (the afType') of
                               None \<Rightarrow> 0 | Some i \<Rightarrow> i);
                    destination = destinations ! (index mod length destinations);
                    s' = s\<lparr>roundRobinIndexes :=
                             Map_set (roundRobinIndexes s) (the afType')
                               ((index + 1) mod length destinations)\<rparr>
                in case Map_get (clients s') (dest_nodeId destination) of
                     None \<Rightarrow> (Inl (Error (''AIR client not found for node: ''
                                          @ dest_nodeId destination)), s')
                   | Some client \<Rightarrow> (Inr client, s')))
      else
        (case clients s of
           [] \<Rightarrow> (Inl (Error ''No AIR clients available''), s)
         | (k, firstClient) # rest \<Rightarrow> (Inr firstClient, s)))"

text \<open>\<open>updateStats\<close>: \<open>alpha\<close> is the literal \<open>0.1\<close>.\<close>

definition alpha :: rat where
  "alpha = fl (1 / 10)"

definition updateStats :: "bool \<Rightarrow> int \<Rightarrow> TransactionStats \<Rightarrow> TransactionStats" where
  "updateStats success responseTime st =
     (let st1 = (if success then st\<lparr>successfulRequests := successfulRequests st + 1\<rparr>
                 else st\<lparr>failedRequests := failedRequests st + 1\<rparr>)
      in st1\<lparr>averageResponseTime :=
               js_add (js_mul alpha (of_int responseTime))
                      (js_mul (js_sub 1 alpha) (averageResponseTime st1))\<rparr>)"

definition getStats :: "AIRService \<Rightarrow> TransactionStats" where
  "getStats s = stats s"

definition resetStats :: "int \<Rightarrow> AIRService \<Rightarrow> AIRService" where
  "resetStats now s =
     s\<lparr>stats := \<lparr>totalRequests = 0, successfulRequests = 0, failedRequests = 0,
                  averageResponseTime = 0, lastResetTime = now\<rparr>\<rparr>"

definition shutdown :: "AIRService \<Rightarrow> AIRService" where
  "shutdown s = s\<lparr>statsInterval := False, clients := [], routingTable := [], initialized := False\<rparr>"

text \<open>\<open>executeRequest\<close>. The calls of the model run one after the other: the \<open>await\<close> of
  the source lets other calls run in between, which a sequential model does not show.\<close>

definition executeRequest ::
  "'w io \<Rightarrow> AIRService \<times> 'w \<Rightarrow> UCIPRequest \<Rightarrow> string option \<Rightarrow> string option
   \<Rightarrow> (error + UCIPResponse) \<times> AIRService \<times> 'w" where
  "executeRequest io sw request nodeId' afType' =
     (let s = fst sw; w = snd sw
      in if \<not> initialized s then (Inl (Error ''AIR service not initialized''), s, w)
         else
           (let startTime = clock io w;
                s1 = s\<lparr>stats := (stats s)\<lparr>totalRequests := totalRequests (stats s) + 1\<rparr>\<rparr>
            in case getClient s1 nodeId' afType' of
                 (Inl e, s2) \<Rightarrow>
                   (Inl e, s2\<lparr>stats := updateStats False (clock io w - startTime) (stats s2)\<rparr>, w)
               | (Inr client, s2) \<Rightarrow>
                   (case call io w client request of
                      (Inr response, w') \<Rightarrow>
                        (Inr response,
                         s2\<lparr>stats := updateStats True (clock io w' - startTime) (stats s2)\<rparr>, w')
                    | (Inl e, w') \<Rightarrow>
                        (Inl e,
                         s2\<lparr>stats := updateStats False (clock io w' - startTime) (stats s2)\<rparr>, w'))))"

subsection \<open>The typed operations\<close>

record GetBalanceRequest =
  subscriberNumber :: string
  requestedInformationFlags :: "jsnum option"

type_synonym GetAccountDetailsRequest = GetBalanceRequest

record RefillRequest =
  refill_subscriberNumber :: string
  refillAmount :: jsnum
  transactionId :: "string option"
  transactionCurrency :: "string option"
  profileId :: "string option"

record UpdateBalanceRequest =
  update_subscriberNumber :: string
  adjustmentAmount :: jsnum
  update_transactionId :: "string option"
  transactionType :: "string option"

text \<open>\<open>x || d\<close> for an optional number and an optional string.\<close>

definition num_or :: "jsnum option \<Rightarrow> jsnum \<Rightarrow> jsnum" where
  "num_or x d = (case x of None \<Rightarrow> d | Some n \<Rightarrow> (if n \<noteq> Fin 0 \<and> n \<noteq> NaN then n else d))"

definition str_or :: "string option \<Rightarrow> string \<Rightarrow> string" where
  "str_or x d = (case x of None \<Rightarrow> d | Some s \<Rightarrow> (if s \<noteq> [] then s else d))"

definition padStart :: "nat \<Rightarrow> char \<Rightarrow> string \<Rightarrow> string" where
  "padStart n c s = replicate (n - length s) c @ s"

definition generateTransactionId :: "'w io \<Rightarrow> 'w \<Rightarrow> string" where
  "generateTransactionId io w =
     ''TXN'' @ Number_toString (Fin (of_int (clock io w)))
     @ padStart 4 (CHR ''0'') (Number_toString (Fin (of_int \<lfloor>random io w * 10000\<rfloor>)))"

definition getBalance_request :: "GetBalanceRequest \<Rightarrow> UCIPRequest" where
  "getBalance_request request =
     \<lparr>methodName = ''GetBalanceAndDate'',
      params = [VObj [(''subscriberNumber'', VStr (subscriberNumber request)),
                      (''requestedInformationFlags'',
                       VNum (num_or (requestedInformationFlags request) (Fin 0)))]]\<rparr>"

definition getBalance ::
  "'w io \<Rightarrow> AIRService \<times> 'w \<Rightarrow> GetBalanceRequest \<Rightarrow> string option
   \<Rightarrow> (error + UCIPResponse) \<times> AIRService \<times> 'w" where
  "getBalance io sw request afType' = executeRequest io sw (getBalance_request request) None afType'"

definition refill_request :: "'w io \<Rightarrow> 'w \<Rightarrow> RefillRequest \<Rightarrow> UCIPRequest" where
  "refill_request io w request =
     \<lparr>methodName = ''Refill'',
      params = [VObj [(''subscriberNumber'', VStr (refill_subscriberNumber request)),
                      (''refillAmount'', VNum (refillAmount request)),
                      (''transactionId'',
                       VStr (str_or (transactionId request) (generateTransactionId io w))),
                      (''transactionCurrency'', VStr (str_or (transactionCurrency request) ''USD'')),
                      (''profileId'', VStr (str_or (profileId request) []))]]\<rparr>"

definition refill ::
  "'w io \<Rightarrow> AIRService \<times> 'w \<Rightarrow> RefillRequest \<Rightarrow> string option
   \<Rightarrow> (error + UCIPResponse) \<times> AIRService \<times> 'w" where
  "refill io sw request afType' =
     executeRequest io sw (refill_request io (snd sw) request) None afType'"

definition updateBalance_request :: "'w io \<Rightarrow> 'w \<Rightarrow> UpdateBalanceRequest \<Rightarrow> UCIPRequest" where
  "updateBalance_request io w request =
     \<lparr>methodName = ''UpdateBalanceAndDate'',
      params = [VObj [(''subscriberNumber'', VStr (update_subscriberNumber request)),
                      (''adjustmentAmount'', VNum (adjustmentAmount request)),
                      (''transactionId'',
                       VStr (str_or (update_transactionId request) (generateTransactionId io w))),
                      (''transactionType'', VStr (str_or (transactionType request) ''ADJUSTMENT''))]]\<rparr>"

definition updateBalance ::
  "'w io \<Rightarrow> AIRService \<times> 'w \<Rightarrow> UpdateBalanceRequest \<Rightarrow> string option
   \<Rightarrow> (error + UCIPResponse) \<times> AIRService \<times> 'w" where
  "updateBalance io sw request afType' =
     executeRequest io sw (updateBalance_request io (snd sw) request) None afType'"

definition getAccountDetails_request :: "GetAccountDetailsRequest \<Rightarrow> UCIPRequest" where
  "getAccountDetails_request request =
     \<lparr>methodName = ''GetAccountDetails'',
      params = [VObj [(''subscriberNumber'', VStr (subscriberNumber request)),
                      (''requestedInformationFlags'',
                       VNum (num_or (requestedInformationFlags request) (Fin 4294967295)))]]\<rparr>"

definition getAccountDetails ::
  "'w io \<Rightarrow> AIRService \<times> 'w \<Rightarrow> GetAccountDetailsRequest \<Rightarrow> string option
   \<Rightarrow> (error + UCIPResponse) \<times> AIRService \<times> 'w" where
  "getAccountDetails io sw request afType' =
     executeRequest io sw (getAccountDetails_request request) None afType'"

section \<open>Scenarios\<close>

text \<open>\<open>n\<close> selections by routing key, one after the other, and the cursor of a key
  (\<open>roundRobinIndexes.get(k) || 0\<close>).\<close>

fun selections :: "nat \<Rightarrow> string \<Rightarrow> AIRService \<Rightarrow> (error + XmlRpcClient) list \<times> AIRService" where
  "selections 0 k s = ([], s)"
| "selections (Suc n) k s =
     (case getClient s None (Some k) of
        (r, s') \<Rightarrow> (case selections n k s' of (rs, s'') \<Rightarrow> (r # rs, s'')))"

definition cursor :: "AIRService \<Rightarrow> string \<Rightarrow> nat" where
  "cursor s k = (case Map_get (roundRobinIndexes s) k of None \<Rightarrow> 0 | Some i \<Rightarrow> i)"

text \<open>A service initialized with three nodes \<open>A\<close>, \<open>B\<close>, \<open>C\<close> under the routing key \<open>k\<close>,
  and a stub of the outside world: every POST is answered with the same response, the
  parser returns the same document, and the world counts the POSTs.\<close>

definition example_nodes :: "AirNodeConfig list" where
  "example_nodes =
     [\<lparr>nodeId = ''A'', node_host = ''a.example'', node_port = 10010, afType = Some ''k'',
       active = True\<rparr>,
      \<lparr>nodeId = ''B'', node_host = ''b.example'', node_port = 10010, afType = Some ''k'',
       active = True\<rparr>,
      \<lparr>nodeId = ''C'', node_host = ''c.example'', node_port = 10010, afType = Some ''k'',
       active = True\<rparr>]"

definition example_config :: app_config where
  "example_config = \<lparr>environment = ''lab'', requestTimeout = 30000, maxConnectionsPerRoute = 20\<rparr>"

definition example_service :: AIRService where
  "example_service =
     (case initialize example_config example_nodes (new_AIRService 0) of
        Inr s \<Rightarrow> s
      | Inl e \<Rightarrow> new_AIRService 0)"

definition example_destinations :: "RoutingDestination list" where
  "example_destinations = the (Map_get (routingTable example_service) ''k'')"

definition stub_io :: "http_response \<Rightarrow> node \<Rightarrow> nat io" where
  "stub_io response parsed =
     \<lparr>xml_build = (\<lambda>n. ''<methodCall/>''),
      xml_parse = (\<lambda>xml. Inr parsed),
      http_post = (\<lambda>w u b. (Inr response, Suc w)),
      clock = (\<lambda>w. 100 * int w),
      random = (\<lambda>w. 0)\<rparr>"

text \<open>A routing key is served in a state when it is not empty, the routing table has a
  list of destinations for it that is not empty, and every destination's node has a
  client in the registry. \<open>client_of\<close> is the client registered for a destination.\<close>

definition routed :: "AIRService \<Rightarrow> string \<Rightarrow> RoutingDestination list \<Rightarrow> bool" where
  "routed s k ds = (k \<noteq> [] \<and> Map_get (routingTable s) k = Some ds \<and> ds \<noteq> []
     \<and> list_all (\<lambda>d. Map_get (clients s) (dest_nodeId d) \<noteq> None) ds)"

definition client_of :: "AIRService \<Rightarrow> RoutingDestination \<Rightarrow> error + XmlRpcClient" where
  "client_of s d = Inr (the (Map_get (clients s) (dest_nodeId d)))"

text \<open>The property \<open>k\<close> of the one parameter object of a request.\<close>

definition request_param :: "UCIPRequest \<Rightarrow> string \<Rightarrow> jsval option" where
  "request_param rq k = (case params rq of [VObj ms] \<Rightarrow> map_of ms k | _ \<Rightarrow> None)"



definition inherited_fault_document :: node where
  "inherited_fault_document =
     JObj [(''methodResponse'', JObj [(''fault'',
      JObj [(''value'', JObj [(''struct'', JObj [(''member'',
      JObj [(''name'', JStr ''__proto__''), (''value'',
       JObj [(''struct'', JObj [(''member'', JArr [JObj [(''name'', JStr ''faultCode''), (''value'', JObj [(''int'', JNum (Fin 5))])],
            JObj [(''name'', JStr ''faultString''), (''value'', JObj [(''string'', JStr ''boom'')])]])])])])])])])])]"

definition balance_document :: node where
  "balance_document =
     JObj [(''methodResponse'',
            JObj [(''params'',
                   JObj [(''param'',
                          JObj [(''value'',
                                 JObj [(''struct'',
                                        JObj [(''member'',
                                               JArr [JObj [(''name'', JStr ''subscriberNumber''),
                                                           (''value'', JObj [(''string'', JStr ''1234567890'')])],
                                                     JObj [(''name'', JStr ''balance''),
                                                           (''value'', JObj [(''int'', JNum (Fin 10000))])]])])])])])])]"

definition balance_request :: UCIPRequest where
  "balance_request =
     getBalance_request \<lparr>subscriberNumber = ''1234567890'', requestedInformationFlags = None\<rparr>"

definition balance_response :: UCIPResponse where
  "balance_response =
     \<lparr>responseCode = VNum (Fin 0), responseMessage = None,
      data = Some (VObj [(''subscriberNumber'', VStr ''1234567890''),
                         (''balance'', VNum (Fin 10000))])\<rparr>"

text \<open>A value with every kind of member.\<close>

definition example_value :: jsval where
  "example_value =
     VObj [(''subscriberNumber'', VStr ''1234567890''),
           (''balance'', VNum (Fin 10000)),
           (''rate'', VNum (Fin (3 / 2))),
           (''active'', VBool True),
           (''since'', VDate (Some 1709210096789)),
           (''offers'', VArr [VStr ''a'', VNum (Fin (- 7)), VArr []])]"

section \<open>Properties of the gateway\<close>

text \<open>
  C9 (as amended). \<open>shutdown\<close> leaves every field of the statistics unchanged: in every
  state of the service \<open>getStats\<close> returns after \<open>shutdown\<close> what it returned before.
  \<open>shutdown\<close> empties the client registry and the routing table, clears the ready flag
  and stops the reporting timer; the round-robin cursors stay as they were.
\<close>

theorem shutdown_frame:
  "getStats (shutdown s) = getStats s
   \<and> stats (shutdown s) = stats s
   \<and> roundRobinIndexes (shutdown s) = roundRobinIndexes s
   \<and> clients (shutdown s) = []
   \<and> routingTable (shutdown s) = []
   \<and> initialized (shutdown s) = False
   \<and> statsInterval (shutdown s) = False"
  by (simp add: getStats_def shutdown_def)

text \<open>
  The claim as stated names the client registry, the routing table and the ready flag
  as all that \<open>shutdown\<close> affects. The reporting timer is affected too: it runs in the
  initialized service and is stopped after \<open>shutdown\<close>.
\<close>

theorem shutdown_frame_counterexample:
  "statsInterval example_service = True \<and> statsInterval (shutdown example_service) = False"
  by code_simp

text \<open>
  C7. While the service is not initialized, \<open>executeRequest\<close> and each of the four typed
  operations fail with the error \<open>AIR service not initialized\<close> and leave the whole
  service, hence every field of its statistics, and the outside world as they were.
\<close>

theorem not_initialized_fails:
  assumes "\<not> initialized s"
  shows "executeRequest io (s, w) request nodeId' afType'
           = (Inl (Error ''AIR service not initialized''), s, w)
       \<and> getBalance io (s, w) b afType' = (Inl (Error ''AIR service not initialized''), s, w)
       \<and> refill io (s, w) r afType' = (Inl (Error ''AIR service not initialized''), s, w)
       \<and> updateBalance io (s, w) u afType' = (Inl (Error ''AIR service not initialized''), s, w)
       \<and> getAccountDetails io (s, w) b afType'
           = (Inl (Error ''AIR service not initialized''), s, w)"
  using assms
  by (simp add: executeRequest_def getBalance_def refill_def updateBalance_def
      getAccountDetails_def)

theorem not_initialized_fails_witness:
  "\<not> initialized (new_AIRService 0)
   \<and> fst (getBalance (stub_io \<lparr>status = 200, statusText = ''OK'', response_data = []\<rparr> (JObj []))
        (new_AIRService 0, 0)
        \<lparr>subscriberNumber = ''1234567890'', requestedInformationFlags = None\<rparr> None)
     = Inl (Error ''AIR service not initialized'')
   \<and> getStats (fst (snd (getBalance
        (stub_io \<lparr>status = 200, statusText = ''OK'', response_data = []\<rparr> (JObj []))
        (new_AIRService 0, 0)
        \<lparr>subscriberNumber = ''1234567890'', requestedInformationFlags = None\<rparr> None)))
     = getStats (new_AIRService 0)"
proof -
  have h: "\<not> initialized (new_AIRService 0)"
    by (simp add: new_AIRService_def)
  show ?thesis
    using h not_initialized_fails [OF h,
        of "stub_io \<lparr>status = 200, statusText = ''OK'', response_data = []\<rparr> (JObj [])" 0]
    by simp
qed

subsection \<open>Statistics\<close>

lemma fl_consts:
  "fl (1 - fl (1 / 10)) = fl (9 / 10)"
  "fl 0 = 0" "fl 10 = 10" "fl 29 = 29"
  "fl (fl (1 / 10) * 100) = 10"
  "fl (fl (1 / 10) * 200) = 20"
  "fl (fl (9 / 10) * 10) = 9"
  by code_simp+

text \<open>
  C6. \<open>updateStats\<close> sets the average to \<open>0.1 \<times> elapsed + 0.9 \<times> average\<close>, computed in
  doubles: each product and the sum are rounded, and the factor \<open>1 - alpha\<close> that the
  code computes is the double \<open>0.9\<close>. From an average of 0, a call that took 100 ms
  gives exactly 10, and a following call that took 200 ms gives exactly 29, whether
  the calls succeeded or failed.
\<close>

theorem ewma_update:
  "averageResponseTime (updateStats success responseTime st)
     = fl (fl (fl (1 / 10) * of_int responseTime) + fl (fl (9 / 10) * averageResponseTime st))
   \<and> averageResponseTime (updateStats success1 100 (st\<lparr>averageResponseTime := 0\<rparr>)) = 10
   \<and> averageResponseTime
       (updateStats success2 200 (updateStats success1 100 (st\<lparr>averageResponseTime := 0\<rparr>))) = 29"
proof -
  have step: "averageResponseTime (updateStats ok rt t)
     = fl (fl (fl (1 / 10) * of_int rt) + fl (fl (9 / 10) * averageResponseTime t))" for ok rt t
    by (simp add: updateStats_def alpha_def js_add_def js_mul_def js_sub_def Let_def fl_consts(1))
  have one: "averageResponseTime (updateStats success1 100 (st\<lparr>averageResponseTime := 0\<rparr>)) = 10"
    unfolding step by (simp add: fl_consts)
  have two: "averageResponseTime
       (updateStats success2 200 (updateStats success1 100 (st\<lparr>averageResponseTime := 0\<rparr>))) = 29"
    unfolding step [of success2] one by (simp add: fl_consts)
  from step one two show ?thesis by blast
qed

subsection \<open>Routing\<close>

lemma map_of_replace_same:
  "map_of m k \<noteq> None \<Longrightarrow>
   map_of (map (\<lambda>(a, b). if a = k then (k, v) else (a, b)) m) k = Some v"
  by (induction m) (auto split: if_splits)

lemma map_of_replace_other:
  "k' \<noteq> k \<Longrightarrow>
   map_of (map (\<lambda>(a, b). if a = k then (k, v) else (a, b)) m) k' = map_of m k'"
  by (induction m) (auto split: if_splits)

lemma Map_get_Map_set:
  "Map_get (Map_set m k v) k' = (if k' = k then Some v else Map_get m k')"
proof (cases "k \<in> set (map fst m)")
  case True
  then have "map_of m k \<noteq> None" by (simp add: map_of_eq_None_iff)
  with True show ?thesis
    by (simp add: Map_get_def Map_set_def map_of_replace_same map_of_replace_other)
next
  case False
  then have "map_of m k = None" by (simp add: map_of_eq_None_iff)
  with False show ?thesis by (auto simp: Map_get_def Map_set_def map_add_def split: option.splits)
qed

lemma getClient_routed:
  assumes "routed s k ds"
  shows "getClient s None (Some k) =
           (client_of s (ds ! (cursor s k mod length ds)),
            s\<lparr>roundRobinIndexes :=
                 Map_set (roundRobinIndexes s) k ((cursor s k + 1) mod length ds)\<rparr>)"
proof -
  have "cursor s k mod length ds < length ds" using assms by (simp add: routed_def)
  then have "ds ! (cursor s k mod length ds) \<in> set ds" by simp
  moreover from assms have "\<forall>d\<in>set ds. Map_get (clients s) (dest_nodeId d) \<noteq> None"
    by (simp add: routed_def list_all_iff)
  ultimately obtain c where
    "Map_get (clients s) (dest_nodeId (ds ! (cursor s k mod length ds))) = Some c"
    by blast
  with assms show ?thesis
    by (simp add: getClient_def given_def routed_def cursor_def client_of_def Let_def)
qed

text \<open>The \<open>n\<close> selections, by induction on \<open>n\<close> with the state generalised: a selection
  moves the cursor only, so the key stays served.\<close>

lemma selections_routed:
  assumes "routed s k ds"
  shows "fst (selections n k s)
           = map (\<lambda>i. client_of s (ds ! ((cursor s k + i) mod length ds))) [0..<n]
       \<and> cursor (snd (selections n k s)) k
           = (if n = 0 then cursor s k else (cursor s k + n) mod length ds)
       \<and> clients (snd (selections n k s)) = clients s
       \<and> routingTable (snd (selections n k s)) = routingTable s"
  using assms
proof (induction n arbitrary: s)
  case 0
  then show ?case by simp
next
  case (Suc n)
  define s' where "s' = s\<lparr>roundRobinIndexes :=
    Map_set (roundRobinIndexes s) k ((cursor s k + 1) mod length ds)\<rparr>"
  have step: "getClient s None (Some k) = (client_of s (ds ! (cursor s k mod length ds)), s')"
    using getClient_routed [OF Suc.prems] by (simp add: s'_def)
  have r': "routed s' k ds" using Suc.prems by (simp add: routed_def s'_def)
  have c': "cursor s' k = (cursor s k + 1) mod length ds"
    by (simp add: cursor_def s'_def Map_get_Map_set)
  have co: "client_of s' = client_of s" by (simp add: client_of_def s'_def fun_eq_iff)
  note IH = Suc.IH [OF r']
  have idx: "(Suc (cursor s k) mod length ds + i) mod length ds
               = Suc (cursor s k + i) mod length ds" for i
    by (metis add_Suc mod_add_left_eq)
  have upt: "[0..<Suc n] = 0 # map Suc [0..<n]"
    by (simp add: upt_conv_Cons map_Suc_upt del: upt_Suc)
  have sel: "selections (Suc n) k s
               = (client_of s (ds ! (cursor s k mod length ds)) # fst (selections n k s'),
                  snd (selections n k s'))"
    by (simp add: step split: prod.splits)
  have "map (\<lambda>i. client_of s (ds ! ((cursor s k + i) mod length ds))) [0..<Suc n]
          = client_of s (ds ! (cursor s k mod length ds))
            # map (\<lambda>i. client_of s (ds ! (Suc (cursor s k + i) mod length ds))) [0..<n]"
    unfolding upt by (simp add: comp_def)
  also have "\<dots> = fst (selections (Suc n) k s)"
    unfolding sel using IH by (simp add: c' co idx)
  finally have 1: "fst (selections (Suc n) k s)
    = map (\<lambda>i. client_of s (ds ! ((cursor s k + i) mod length ds))) [0..<Suc n]" by simp
  have "cursor (snd (selections n k s')) k = (cursor s k + Suc n) mod length ds"
    using IH by (simp add: c' mod_add_left_eq mod_Suc_eq)
  then have 2: "cursor (snd (selections (Suc n) k s)) k = (cursor s k + Suc n) mod length ds"
    unfolding sel by simp
  have 3: "clients (snd (selections (Suc n) k s)) = clients s"
    "routingTable (snd (selections (Suc n) k s)) = routingTable s"
    unfolding sel using IH by (simp_all add: s'_def)
  from 1 2 3 show ?case by simp
qed

text \<open>How often the position \<open>j\<close> of a list of length \<open>l\<close> is met by \<open>n\<close> steps from \<open>c\<close>.\<close>

lemma mod_shift_zero:
  fixes x j l :: nat
  assumes "j < l"
  shows "((x + (l - j)) mod l = 0) = (x mod l = j)"
proof -
  define r where "r = x mod l"
  have r: "r < l" using assms by (simp add: r_def)
  have eq: "(x + (l - j)) mod l = (r + (l - j)) mod l"
    by (simp add: r_def mod_add_left_eq)
  show ?thesis
  proof (cases "r < j")
    case True
    then have "r + (l - j) < l" using assms by arith
    then have "(r + (l - j)) mod l = r + (l - j)" by simp
    with True assms show ?thesis unfolding eq r_def [symmetric] by simp
  next
    case False
    then have "r + (l - j) = l + (r - j)" using assms by arith
    moreover have "r - j < l" using r by arith
    ultimately have "(r + (l - j)) mod l = r - j" by simp
    with False show ?thesis unfolding eq r_def [symmetric] by auto
  qed
qed

lemma count_residue:
  fixes c j l n :: nat
  assumes "j < l"
  shows "length (filter (\<lambda>i. (c + i) mod l = j) [0..<n]) = (n + (c + (l - 1 - j)) mod l) div l"
proof (induction n)
  case 0
  have "(c + (l - 1 - j)) mod l < l" using assms by simp
  then show ?case by simp
next
  case (Suc n)
  define e where "e = (c + (l - 1 - j)) mod l"
  have "Suc (n + e) mod l = (Suc n + (c + (l - 1 - j))) mod l"
    unfolding e_def by (metis add_Suc mod_add_right_eq)
  also have "Suc n + (c + (l - 1 - j)) = c + n + (l - j)"
    using assms by arith
  finally have "Suc (n + e) mod l = (c + n + (l - j)) mod l" .
  then have hit: "(Suc (n + e) mod l = 0) = ((c + n) mod l = j)"
    using mod_shift_zero [OF assms, of "c + n"] by simp
  have "(Suc n + e) div l = (n + e) div l + (if (c + n) mod l = j then 1 else 0)"
    using hit by (simp add: div_Suc)
  with Suc show ?case by (simp add: e_def)
qed

lemma count_floor_or_ceil:
  fixes c j l n :: nat
  assumes "j < l"
  shows "length (filter (\<lambda>i. (c + i) mod l = j) [0..<n]) = n div l
       \<or> length (filter (\<lambda>i. (c + i) mod l = j) [0..<n]) = (n + l - 1) div l"
proof -
  define e where "e = (c + (l - 1 - j)) mod l"
  have e: "e \<le> l - 1" using assms by (simp add: e_def less_Suc_eq_le [symmetric] Suc_pred')
  have cnt: "length (filter (\<lambda>i. (c + i) mod l = j) [0..<n]) = (n + e) div l"
    using count_residue [OF assms] by (simp add: e_def)
  have lo: "n div l \<le> (n + e) div l" by (simp add: div_le_mono)
  have hi: "(n + e) div l \<le> (n + l - 1) div l" using e assms by (intro div_le_mono) simp
  have "(n + l - 1) div l \<le> Suc (n div l)"
    by (metis Suc_eq_plus1 Suc_leI Suc_le_D add.commute assms diff_le_self
        div_add_self1 div_le_mono nat.simps(3))
  with lo hi cnt show ?thesis by linarith
qed

text \<open>
  C3. Let the routing key \<open>k\<close> be served in state \<open>s\<close> with destinations \<open>ds\<close>, and let the
  cursor of \<open>k\<close> stand at \<open>c\<close>. Then \<open>n\<close> selections by \<open>k\<close>, one after the other, return
  the clients of the destinations at the positions \<open>c, c + 1, \<dots>, c + n - 1\<close> modulo the
  length of \<open>ds\<close>, in that order: the list is walked cyclically in configuration order.
  The cursor ends at \<open>(c + n) mod length ds\<close>. Every position of the list is chosen
  \<open>floor (n / length ds)\<close> or \<open>ceil (n / length ds)\<close> times. With the three destinations
  \<open>A, B, C\<close> and the cursor at 0, seven selections choose \<open>A, B, C, A, B, C, A\<close> and leave
  the cursor at 1 (the witness).
\<close>

theorem round_robin:
  assumes "routed s k ds"
  shows "fst (selections n k s)
           = map (\<lambda>i. client_of s (ds ! ((cursor s k + i) mod length ds))) [0..<n]
       \<and> cursor (snd (selections n k s)) k
           = (if n = 0 then cursor s k else (cursor s k + n) mod length ds)
       \<and> (\<forall>j<length ds.
            length (filter (\<lambda>i. (cursor s k + i) mod length ds = j) [0..<n]) = n div length ds
          \<or> length (filter (\<lambda>i. (cursor s k + i) mod length ds = j) [0..<n])
              = (n + length ds - 1) div length ds)"
  using selections_routed [OF assms, of n] count_floor_or_ceil [of _ "length ds" "cursor s k" n]
  by simp

theorem round_robin_witness:
  "routed example_service ''k'' example_destinations
   \<and> map dest_nodeId example_destinations = [''A'', ''B'', ''C'']
   \<and> cursor example_service ''k'' = 0
   \<and> fst (selections 7 ''k'' example_service)
       = map (\<lambda>n. Inr (the (Map_get (clients example_service) n)))
           [''A'', ''B'', ''C'', ''A'', ''B'', ''C'', ''A'']
   \<and> cursor (snd (selections 7 ''k'' example_service)) ''k'' = 1"
proof -
  have h: "routed example_service ''k'' example_destinations" by code_simp
  have c: "cursor example_service ''k'' = 0" by code_simp
  have ids: "map dest_nodeId example_destinations = [''A'', ''B'', ''C'']" by code_simp
  have l: "(0 + 7) mod length example_destinations = 1" by code_simp
  have m: "map (\<lambda>i. client_of example_service
                      (example_destinations ! ((0 + i) mod length example_destinations))) [0..<7]
             = map (\<lambda>n. Inr (the (Map_get (clients example_service) n)))
                 [''A'', ''B'', ''C'', ''A'', ''B'', ''C'', ''A'']" by code_simp
  have n0: "(7::nat) \<noteq> 0" by simp
  from round_robin [OF h, of 7] have
    "fst (selections 7 ''k'' example_service)
       = map (\<lambda>i. client_of example_service
                     (example_destinations ! ((0 + i) mod length example_destinations))) [0..<7]"
    "cursor (snd (selections 7 ''k'' example_service)) ''k''
       = (0 + 7) mod length example_destinations"
    by (simp_all only: c n0 if_False)
  with h c ids l m show ?thesis by (simp only:)
qed

text \<open>
  C4 (as amended). A selection with a node id that is not the empty string returns the
  client registered under that id, or fails with \<open>AIR client not found for node\<close> when
  there is none; the routing key has no part in the result, and the service is left as
  it was, so no cursor moves. The test of the source is \<open>if (nodeId)\<close>: an empty
  string is treated as no node id at all, and the selection goes on to the routing key
  as if the id had been left out.
\<close>

theorem node_id_precedence:
  assumes "nid \<noteq> []"
  shows "getClient s (Some nid) afType'
           = (case Map_get (clients s) nid of
                None \<Rightarrow> Inl (Error (''AIR client not found for node: '' @ nid))
              | Some client \<Rightarrow> Inr client, s)
       \<and> getClient s (Some []) afType' = getClient s None afType'"
  using assms by (simp add: getClient_def given_def split: option.splits)


theorem node_id_precedence_witness:
  "''B'' \<noteq> []
   \<and> getClient example_service (Some ''B'') (Some ''k'')
       = (Inr (the (Map_get (clients example_service) ''B'')), example_service)
   \<and> getClient example_service (Some ''X'') (Some ''k'')
       = (Inl (Error ''AIR client not found for node: X''), example_service)"
proof -
  have h: "''B'' \<noteq> []" "''X'' \<noteq> []" by simp_all
  have b: "(case Map_get (clients example_service) ''B'' of
              None \<Rightarrow> Inl (Error (''AIR client not found for node: '' @ ''B''))
            | Some client \<Rightarrow> Inr client)
           = Inr (the (Map_get (clients example_service) ''B''))"
    by code_simp
  have x: "(case Map_get (clients example_service) ''X'' of
              None \<Rightarrow> Inl (Error (''AIR client not found for node: '' @ ''X''))
            | Some client \<Rightarrow> Inr client)
           = Inl (Error ''AIR client not found for node: X'')"
    by code_simp
  from node_id_precedence [OF h(1), of example_service "Some ''k''"]
    node_id_precedence [OF h(2), of example_service "Some ''k''"] h(1)
  show ?thesis by (simp only: b x) simp
qed

text \<open>The claim as stated fails for the empty node id: it is supplied, no client is
  registered under it, and yet the selection does not fail; it takes the routing key,
  returns the client of \<open>A\<close> and moves the cursor of \<open>k\<close> from 0 to 1.\<close>

theorem node_id_precedence_counterexample:
  "Map_get (clients example_service) [] = None
   \<and> fst (getClient example_service (Some []) (Some ''k''))
       = Inr (the (Map_get (clients example_service) ''A''))
   \<and> cursor example_service ''k'' = 0
   \<and> cursor (snd (getClient example_service (Some []) (Some ''k''))) ''k'' = 1"
  by code_simp


subsection \<open>Defaults of the typed operations\<close>

text \<open>
  C8 (as amended). \<open>getAccountDetails\<close> passes to \<open>executeRequest\<close> a request whose
  \<open>requestedInformationFlags\<close> is the caller's value when the caller gives one that is
  neither 0 nor \<open>NaN\<close>, and 4294967295 (all 32 bits set) when the caller gives none, or
  gives 0 or \<open>NaN\<close>: the default is taken with \<open>||\<close>, which tests the value and not
  its presence.
\<close>

theorem account_details_flags:
  "request_param (getAccountDetails_request r) ''requestedInformationFlags''
     = Some (VNum (case requestedInformationFlags r of
                     None \<Rightarrow> Fin 4294967295
                   | Some n \<Rightarrow> if n = Fin 0 \<or> n = NaN then Fin 4294967295 else n))
   \<and> getAccountDetails io sw r afType'
     = executeRequest io sw (getAccountDetails_request r) None afType'"
  by (simp add: request_param_def getAccountDetails_request_def getAccountDetails_def num_or_def
      split: option.splits)


theorem account_details_flags_witness:
  "request_param
     (getAccountDetails_request
        \<lparr>subscriberNumber = ''1234567890'', requestedInformationFlags = Some (Fin 5)\<rparr>)
     ''requestedInformationFlags'' = Some (VNum (Fin 5))
   \<and> request_param
     (getAccountDetails_request
        \<lparr>subscriberNumber = ''1234567890'', requestedInformationFlags = None\<rparr>)
     ''requestedInformationFlags'' = Some (VNum (Fin 4294967295))"
  using account_details_flags
      [where r = "\<lparr>subscriberNumber = ''1234567890'', requestedInformationFlags = Some (Fin 5)\<rparr>"
         and io = "stub_io \<lparr>status = 200, statusText = ''OK'', response_data = []\<rparr> (JObj [])"
         and sw = "(example_service, 0)" and afType' = None]
    account_details_flags
      [where r = "\<lparr>subscriberNumber = ''1234567890'', requestedInformationFlags = None\<rparr>"
         and io = "stub_io \<lparr>status = 200, statusText = ''OK'', response_data = []\<rparr> (JObj [])"
         and sw = "(example_service, 0)" and afType' = None]
  by simp

text \<open>The claim as stated fails for the value 0: the caller supplies it and the request
  carries 4294967295.\<close>

theorem account_details_flags_counterexample:
  "request_param
     (getAccountDetails_request
        \<lparr>subscriberNumber = ''1234567890'', requestedInformationFlags = Some (Fin 0)\<rparr>)
     ''requestedInformationFlags'' = Some (VNum (Fin 4294967295))
   \<and> request_param
     (getAccountDetails_request
        \<lparr>subscriberNumber = ''1234567890'', requestedInformationFlags = Some (Fin 0)\<rparr>)
     ''requestedInformationFlags'' \<noteq> Some (VNum (Fin 0))"
  by (simp add: request_param_def getAccountDetails_request_def num_or_def)



section \<open>Properties of the codec\<close>

subsection \<open>Numerals read back\<close>

lemma digit_char_props:
  assumes "0 \<le> d" "d < 10"
  shows "is_digit (digit_char d)" "digit_val (digit_char d) = d"
proof -
  from assms have "d = 0 \<or> d = 1 \<or> d = 2 \<or> d = 3 \<or> d = 4 \<or> d = 5 \<or> d = 6
    \<or> d = 7 \<or> d = 8 \<or> d = 9" by arith
  then show "is_digit (digit_char d)" "digit_val (digit_char d) = d"
    by (auto simp: digit_char_def is_digit_def digit_val_def)
qed

lemma digits_all_digit: "0 \<le> n \<Longrightarrow> list_all is_digit (digits n)"
proof (induction n rule: digits.induct)
  case (1 n)
  show ?case
  proof (cases "n < 10")
    case True
    with 1 show ?thesis by (subst digits.simps) (simp add: digit_char_props)
  next
    case False
    with 1 show ?thesis by (subst digits.simps) (simp add: digit_char_props)
  qed
qed

lemma digits_not_Nil: "digits n \<noteq> []"
  by (subst digits.simps) simp

lemma read_digits_snoc: "read_digits (ds @ [c]) = 10 * read_digits ds + digit_val c"
  by (simp add: read_digits_def)

lemma read_digits_digits: "0 \<le> n \<Longrightarrow> read_digits (digits n) = n"
proof (induction n rule: digits.induct)
  case (1 n)
  show ?case
  proof (cases "n < 10")
    case True
    with 1 show ?thesis
      by (subst digits.simps) (simp add: read_digits_def digit_char_props)
  next
    case False
    with 1 show ?thesis
      by (subst digits.simps) (simp add: read_digits_snoc digit_char_props)
  qed
qed

lemma takeWhile_all: "list_all P xs \<Longrightarrow> takeWhile P xs = xs"
  by (induction xs) simp_all

lemma digits_hd: "0 \<le> n \<Longrightarrow> is_digit (hd (digits n))"
  using digits_all_digit [of n] digits_not_Nil [of n] by (cases "digits n") simp_all

lemma is_digit_not_space: "is_digit c \<Longrightarrow> \<not> is_space c \<and> c \<noteq> CHR ''-'' \<and> c \<noteq> CHR ''+''"
  by (auto simp: is_digit_def is_space_def)

lemma parseInt_str_digits:
  assumes "0 \<le> n"
  shows "parseInt_str (digits n) = to_double (of_int n)"
    and "parseInt_str (CHR ''-'' # digits n) = to_double (of_int (- n))"
proof -
  obtain c cs where cs: "digits n = c # cs"
    using digits_not_Nil [of n] by (cases "digits n") auto
  with digits_hd [OF assms] have c: "is_digit c" by simp
  note nc = is_digit_not_space [OF c]
  have tw: "takeWhile is_digit (c # cs) = c # cs"
    using digits_all_digit [OF assms] cs takeWhile_all by metis
  show "parseInt_str (digits n) = to_double (of_int n)"
    using nc tw read_digits_digits [OF assms] cs
    by (simp add: parseInt_str_def Let_def)
  show "parseInt_str (CHR ''-'' # digits n) = to_double (of_int (- n))"
    using nc tw read_digits_digits [OF assms] cs
    by (simp add: parseInt_str_def Let_def is_space_def)
qed

subsection \<open>Dates read back\<close>

text \<open>
  A date comes back from its ISO string. The year found from the day number brackets it,
  the month and the day of the month are read off the table of month starts, and each
  field is printed with as many digits as the parser takes.
\<close>

lemma div_bounds:
  fixes a b :: int
  assumes "0 < b"
  shows "b * (a div b) \<le> a" and "a < b * (a div b) + b"
proof -
  have "a = b * (a div b) + a mod b" by simp
  moreover have "0 \<le> a mod b" "a mod b < b" using assms by simp_all
  ultimately show "b * (a div b) \<le> a" and "a < b * (a div b) + b" by linarith+
qed

lemma DayFromYear_bounds:
  "146097 * (y - 1970) - 506 \<le> 400 * DayFromYear y \<and>
   400 * DayFromYear y \<le> 146097 * (y - 1970) + 589"
proof -
  define q4 where "q4 = (y - 1969) div 4"
  define q100 where "q100 = (y - 1901) div 100"
  define q400 where "q400 = (y - 1601) div 400"
  define D where "D = DayFromYear y"
  have a: "4 * q4 \<le> y - 1969" "y - 1969 < 4 * q4 + 4"
    unfolding q4_def by (rule div_bounds, simp)+
  have b: "100 * q100 \<le> y - 1901" "y - 1901 < 100 * q100 + 100"
    unfolding q100_def by (rule div_bounds, simp)+
  have c: "400 * q400 \<le> y - 1601" "y - 1601 < 400 * q400 + 400"
    unfolding q400_def by (rule div_bounds, simp)+
  have "D = 365 * (y - 1970) + q4 - q100 + q400"
    by (simp add: D_def DayFromYear_def q4_def q100_def q400_def)
  with a b c have "146097 * (y - 1970) - 506 \<le> 400 * D \<and> 400 * D \<le> 146097 * (y - 1970) + 589"
    by (simp add: algebra_simps)
  then show ?thesis by (simp only: D_def)
qed

lemma year_bracket:
  "DayFromYear (YearFromDay d) \<le> d \<and> d < DayFromYear (YearFromDay d + 1)"
proof -
  define q where "q = (400 * d) div 146097"
  define y where "y = 1970 + q"
  define A where "A = DayFromYear (y - 1)"
  define B where "B = DayFromYear (y + 2)"
  have q: "146097 * q \<le> 400 * d" "400 * d < 146097 * q + 146097"
    unfolding q_def by (rule div_bounds, simp)+
  have "400 * A \<le> 146097 * (y - 1 - 1970) + 589"
    using DayFromYear_bounds [of "y - 1"] by (simp only: A_def)
  with q have a: "A \<le> d"
    unfolding y_def by (simp add: algebra_simps)
  have "146097 * (y + 2 - 1970) - 506 \<le> 400 * B"
    using DayFromYear_bounds [of "y + 2"] by (simp only: B_def)
  with q have b: "d < B"
    unfolding y_def by (simp add: algebra_simps)
  have y: "1970 + (400 * d) div 146097 = y" by (simp add: y_def q_def)
  show ?thesis
  proof (cases "DayFromYear (y + 1) \<le> d")
    case True
    then have "YearFromDay d = y + 1" by (simp add: YearFromDay_def y Let_def)
    with True b show ?thesis by (simp add: B_def add.commute)
  next
    case False
    show ?thesis
    proof (cases "d < DayFromYear y")
      case True
      with False have "YearFromDay d = y - 1" by (simp add: YearFromDay_def y Let_def)
      with True a show ?thesis by (simp add: A_def)
    next
      case ge: False
      with False have "YearFromDay d = y" by (simp add: YearFromDay_def y Let_def)
      with False ge show ?thesis by simp
    qed
  qed
qed

lemma div_step:
  fixes a b :: int
  assumes "0 < b"
  shows "(a + 1) div b = (if (a + 1) mod b = 0 then a div b + 1 else a div b)"
proof -
  define q where "q = a div b"
  define r where "r = a mod b"
  have e1: "a = b * q + r" by (simp add: q_def r_def)
  have r1: "0 \<le> r" "r < b" using assms by (simp_all add: r_def)
  show ?thesis
  proof (cases "r = b - 1")
    case True
    then have "a + 1 = b * (q + 1)" using e1 by (simp add: algebra_simps)
    then have "(a + 1) div b = q + 1" "(a + 1) mod b = 0"
      using assms by simp_all
    then show ?thesis by (simp add: q_def)
  next
    case False
    with r1 have lt: "r + 1 < b" by simp
    have "a + 1 = (r + 1) + q * b" using e1 by (simp add: algebra_simps)
    moreover have "((r + 1) + q * b) div b = q" "((r + 1) + q * b) mod b = r + 1"
      using lt r1 by (simp_all add: div_pos_pos_trivial mod_pos_pos_trivial)
    ultimately have "(a + 1) div b = q" "(a + 1) mod b = r + 1"
      by (simp_all only:)
    with r1 show ?thesis by (simp add: q_def)
  qed
qed


lemma leap_step:
  fixes y :: int
  shows "(y - 1968) div 4 = (if y mod 4 = 0 then (y - 1969) div 4 + 1 else (y - 1969) div 4)"
    and "(y - 1900) div 100 = (if y mod 100 = 0 then (y - 1901) div 100 + 1 else (y - 1901) div 100)"
    and "(y - 1600) div 400 = (if y mod 400 = 0 then (y - 1601) div 400 + 1 else (y - 1601) div 400)"
proof -
  have 1: "(y - 1968) mod 4 = 0 \<longleftrightarrow> y mod 4 = 0" by presburger
  have 2: "(y - 1900) mod 100 = 0 \<longleftrightarrow> y mod 100 = 0" by presburger
  have 3: "(y - 1600) mod 400 = 0 \<longleftrightarrow> y mod 400 = 0" by presburger
  show "(y - 1968) div 4 = (if y mod 4 = 0 then (y - 1969) div 4 + 1 else (y - 1969) div 4)"
    using div_step [of 4 "y - 1969"] 1 by simp
  show "(y - 1900) div 100 = (if y mod 100 = 0 then (y - 1901) div 100 + 1 else (y - 1901) div 100)"
    using div_step [of 100 "y - 1901"] 2 by simp
  show "(y - 1600) div 400 = (if y mod 400 = 0 then (y - 1601) div 400 + 1 else (y - 1601) div 400)"
    using div_step [of 400 "y - 1601"] 3 by simp
qed

lemma mod_chain: "(y::int) mod 400 = 0 \<Longrightarrow> y mod 100 = 0" "(y::int) mod 100 = 0 \<Longrightarrow> y mod 4 = 0"
  by presburger+

lemma days_in_year: "DayFromYear (y + 1) = DayFromYear y + 365 + InLeapYear y"
proof -
  have "DayFromYear (y + 1) = 365 * (y - 1969) + (y - 1968) div 4 - (y - 1900) div 100
          + (y - 1600) div 400"
    by (simp add: DayFromYear_def algebra_simps)
  also have "\<dots> = DayFromYear y + 365 + InLeapYear y"
    unfolding leap_step DayFromYear_def InLeapYear_def
    using mod_chain [of y] by (auto simp: algebra_simps)
  finally show ?thesis .
qed


lemma month_bracket:
  assumes "0 \<le> dwy" "dwy < 365 + l" "l = 0 \<or> l = 1"
  shows "MonthFromDay dwy l \<le> 11
       \<and> month_starts l ! MonthFromDay dwy l \<le> dwy
       \<and> dwy < (month_starts l @ [365 + l]) ! Suc (MonthFromDay dwy l)"
proof -
  from assms have "dwy < 31 \<or> (31 \<le> dwy \<and> dwy < 59 + l) \<or> (59 + l \<le> dwy \<and> dwy < 90 + l)
    \<or> (90 + l \<le> dwy \<and> dwy < 120 + l) \<or> (120 + l \<le> dwy \<and> dwy < 151 + l)
    \<or> (151 + l \<le> dwy \<and> dwy < 181 + l) \<or> (181 + l \<le> dwy \<and> dwy < 212 + l)
    \<or> (212 + l \<le> dwy \<and> dwy < 243 + l) \<or> (243 + l \<le> dwy \<and> dwy < 273 + l)
    \<or> (273 + l \<le> dwy \<and> dwy < 304 + l) \<or> (304 + l \<le> dwy \<and> dwy < 334 + l)
    \<or> (334 + l \<le> dwy \<and> dwy < 365 + l)" by arith
  then show ?thesis
    using assms by (elim disjE) (auto simp: MonthFromDay_def month_starts_def)
qed

lemma time_of_day:
  fixes tw :: int
  assumes "0 \<le> tw" "tw < 86400000"
  shows "tw div 3600000 * 3600000 + tw div 60000 mod 60 * 60000 + tw div 1000 mod 60 * 1000
           + tw mod 1000 = tw"
    and "0 \<le> tw div 3600000" "tw div 3600000 \<le> 23"
proof -
  have a: "tw div 60000 = tw div 1000 div 60" by (simp add: zdiv_zmult2_eq)
  have b: "tw div 3600000 = tw div 60000 div 60" by (simp add: zdiv_zmult2_eq)
  define x where "x = tw div 1000"
  define y where "y = x div 60"
  define h where "h = y div 60"
  define m where "m = y mod 60"
  define s where "s = x mod 60"
  define ms where "ms = tw mod 1000"
  have 1: "tw = 1000 * x + ms" by (simp add: x_def ms_def)
  have 2: "x = 60 * y + s" by (simp add: y_def s_def)
  have 3: "y = 60 * h + m" by (simp add: h_def m_def)
  have "h * 3600000 + m * 60000 + s * 1000 + ms = tw"
    unfolding 1 2 3 by (simp add: algebra_simps)
  then show "tw div 3600000 * 3600000 + tw div 60000 mod 60 * 60000 + tw div 1000 mod 60 * 1000
           + tw mod 1000 = tw"
    unfolding b a h_def m_def s_def ms_def y_def x_def .
  show "0 \<le> tw div 3600000" using assms by simp
  show "tw div 3600000 \<le> 23" using assms by simp
qed

lemma digits_length: "0 \<le> n \<Longrightarrow> n < 10 ^ k \<Longrightarrow> 0 < k \<Longrightarrow> length (digits n) \<le> k"
proof (induction n arbitrary: k rule: digits.induct)
  case (1 n)
  show ?case
  proof (cases "n < 10")
    case True
    with 1 show ?thesis by (subst digits.simps) simp
  next
    case False
    obtain j where k: "k = Suc j" using 1(4) by (cases k) auto
    from False 1(3) have j: "0 < j" unfolding k by (cases j) auto
    have "n div 10 < 10 ^ j" using 1(3) unfolding k by simp
    with 1(1) [OF False _ _ j] 1(2) have "length (digits (n div 10)) \<le> j" by simp
    with False show ?thesis unfolding k by (subst digits.simps) simp
  qed
qed

lemma read_digits_zeros: "read_digits (replicate j (CHR ''0'') @ ds) = read_digits ds"
proof -
  have "foldl (\<lambda>a c. 10 * a + digit_val c) 0 (replicate j (CHR ''0'')) = 0"
    by (induction j) (simp_all add: digit_val_def)
  then show ?thesis by (simp add: read_digits_def)
qed

lemma is_digit_zero: "is_digit (CHR ''0'')"
  by (simp add: is_digit_def)

lemma pad_props:
  assumes "0 \<le> n" "n < 10 ^ k" "0 < k"
  shows "length (pad k n) = k" "list_all is_digit (pad k n)" "read_digits (pad k n) = n"
proof -
  have "length (digits n) \<le> k" using assms by (rule digits_length)
  then show "length (pad k n) = k" by (simp add: pad_def)
  show "list_all is_digit (pad k n)"
    using digits_all_digit [OF assms(1)] by (auto simp: pad_def list_all_iff is_digit_zero)
  show "read_digits (pad k n) = n"
    using read_digits_digits [OF assms(1)] by (simp add: pad_def read_digits_zeros)
qed


lemma month_length:
  assumes "0 \<le> dwy" "dwy < 365 + l" "l = 0 \<or> l = 1"
  shows "dwy - month_starts l ! MonthFromDay dwy l < 31"
proof -
  from assms have "dwy < 31 \<or> (31 \<le> dwy \<and> dwy < 59 + l) \<or> (59 + l \<le> dwy \<and> dwy < 90 + l)
    \<or> (90 + l \<le> dwy \<and> dwy < 120 + l) \<or> (120 + l \<le> dwy \<and> dwy < 151 + l)
    \<or> (151 + l \<le> dwy \<and> dwy < 181 + l) \<or> (181 + l \<le> dwy \<and> dwy < 212 + l)
    \<or> (212 + l \<le> dwy \<and> dwy < 243 + l) \<or> (243 + l \<le> dwy \<and> dwy < 273 + l)
    \<or> (273 + l \<le> dwy \<and> dwy < 304 + l) \<or> (304 + l \<le> dwy \<and> dwy < 334 + l)
    \<or> (334 + l \<le> dwy \<and> dwy < 365 + l)" by arith
  then show ?thesis
    using assms by (elim disjE) (auto simp: MonthFromDay_def month_starts_def)
qed

lemma len2: "length xs = 2 \<Longrightarrow> \<exists>a b. xs = [a, b]"
  by (auto simp: length_Suc_conv numeral_2_eq_2)

lemma len3: "length xs = 3 \<Longrightarrow> \<exists>a b c. xs = [a, b, c]"
  by (auto simp: length_Suc_conv numeral_3_eq_3)

lemma iso_fields:
  assumes "length mo = 2" "length dd = 2" "length hh = 2" "length mi = 2" "length ss = 2"
    "length ms = 3"
    and "r = ''-'' @ mo @ ''-'' @ dd @ ''T'' @ hh @ '':'' @ mi @ '':'' @ ss @ ''.'' @ ms @ ''Z''"
  shows "length r = 20" "take 2 (drop 1 r) = mo" "take 2 (drop 4 r) = dd"
    "take 2 (drop 7 r) = hh" "take 2 (drop 10 r) = mi" "take 2 (drop 13 r) = ss"
    "take 3 (drop 16 r) = ms" "map (\<lambda>i. r ! i) [0, 3, 6, 9, 12, 15, 19] = ''--T::.Z''"
proof -
  obtain a1 a2 where 1: "mo = [a1, a2]" using len2 [OF assms(1)] by blast
  obtain b1 b2 where 2: "dd = [b1, b2]" using len2 [OF assms(2)] by blast
  obtain c1 c2 where 3: "hh = [c1, c2]" using len2 [OF assms(3)] by blast
  obtain d1 d2 where 4: "mi = [d1, d2]" using len2 [OF assms(4)] by blast
  obtain e1 e2 where 5: "ss = [e1, e2]" using len2 [OF assms(5)] by blast
  obtain f1 f2 f3 where 6: "ms = [f1, f2, f3]" using len3 [OF assms(6)] by blast
  note r = assms(7) [unfolded 1 2 3 4 5 6]
  show "length r = 20" unfolding r by simp
  show "take 2 (drop 1 r) = mo" unfolding r 1 by simp
  show "take 2 (drop 4 r) = dd" unfolding r 2 by simp
  show "take 2 (drop 7 r) = hh" unfolding r 3 by simp
  show "take 2 (drop 10 r) = mi" unfolding r 4 by simp
  show "take 2 (drop 13 r) = ss" unfolding r 5 by simp
  show "take 3 (drop 16 r) = ms" unfolding r 6 by simp
  show "map (\<lambda>i. r ! i) [0, 3, 6, 9, 12, 15, 19] = ''--T::.Z''" unfolding r by simp
qed

lemma is_digit_not_sign: "is_digit c \<Longrightarrow> c \<noteq> CHR ''+'' \<and> c \<noteq> CHR ''-''"
  by (auto simp: is_digit_def)


lemma Date_parse_built:
  assumes len: "length mo = 2" "length dd = 2" "length hh = 2" "length mis = 2" "length sss = 2"
      "length mss = 3"
    and dig: "list_all is_digit mo" "list_all is_digit dd" "list_all is_digit hh"
      "list_all is_digit mis" "list_all is_digit sss" "list_all is_digit mss"
      "list_all is_digit ys"
    and rd: "read_digits mo = m" "read_digits dd = d" "read_digits hh = h"
      "read_digits mis = mi" "read_digits sss = s" "read_digits mss = ms"
    and sg: "sg = [] \<and> length ys = 4 \<and> y = read_digits ys
             \<or> sg = ''+'' \<and> length ys = 6 \<and> y = read_digits ys
             \<or> sg = ''-'' \<and> length ys = 6 \<and> y = - read_digits ys \<and> read_digits ys \<noteq> 0"
    and rng: "1 \<le> m" "m \<le> 12" "1 \<le> d"
      "d \<le> (month_starts (InLeapYear y) @ [365 + InLeapYear y]) ! nat m
            - month_starts (InLeapYear y) ! nat (m - 1)"
      "h \<le> 23" "mi \<le> 59" "s \<le> 59"
    and t: "t = (DayFromYear y + month_starts (InLeapYear y) ! nat (m - 1) + d - 1) * msPerDay
               + h * 3600000 + mi * 60000 + s * 1000 + ms"
      "\<bar>t\<bar> \<le> maxTime"
  shows "Date_parse (sg @ ys @ ''-'' @ mo @ ''-'' @ dd @ ''T'' @ hh @ '':'' @ mis @ '':'' @ sss
                       @ ''.'' @ mss @ ''Z'') = Some t"
proof -
  define r where "r = ''-'' @ mo @ ''-'' @ dd @ ''T'' @ hh @ '':'' @ mis @ '':'' @ sss @ ''.'' @ mss @ ''Z''"
  note f = iso_fields [OF len r_def]
  define str where "str = sg @ ys @ r"
  have nosign: "take 1 str \<noteq> ''+'' \<and> take 1 str \<noteq> ''-''" if "sg = []"
  proof -
    from that sg have "length ys = 4" by auto
    then obtain a zs where "ys = a # zs" by (cases ys) auto
    with dig(7) that show ?thesis unfolding str_def using is_digit_not_sign [of a] by simp
  qed
  note tt = t(1) [symmetric]
  have "Date_parse str = Some t"
  proof (cases "sg = []")
    case True
    with sg have y: "length ys = 4" "read_digits ys = y" by auto
    from True have p: "take 4 str = ys" "drop 4 str = r" using y unfolding str_def by auto
    have ns: "(take 1 str = ''+'') = False" "(take 1 str = ''-'') = False"
      using nosign [OF True] by simp_all
    show ?thesis
      unfolding Date_parse_def Let_def ns simp_thms if_False p f rd y tt
      using rng t(2) dig by simp
  next
    case False
    with sg have y: "length ys = 6" "sg = ''+'' \<or> sg = ''-''" by auto
    have p: "take 1 str = sg" "take 6 (drop 1 str) = ys" "drop 7 str = r"
      using y unfolding str_def by auto
    show ?thesis
    proof (cases "sg = ''+''")
      case True
      with sg have z: "read_digits ys = y" by auto
      have ns: "(take 1 str = ''+'') = True" "(take 1 str = ''-'') = False"
        unfolding p(1) True by simp_all
      show ?thesis
        unfolding Date_parse_def Let_def ns simp_thms if_True if_False p(2,3) f rd y(1) z tt
        using rng t(2) dig by simp
    next
      case False
      with y have m: "sg = ''-''" by simp
      with sg have z: "- read_digits ys = y" "(read_digits ys = 0) = False" by auto
      have ns: "(take 1 str = ''+'') = False" "(take 1 str = ''-'') = True"
        unfolding p(1) m by simp_all
      show ?thesis
        unfolding Date_parse_def Let_def ns simp_thms if_True if_False p(2,3) f rd y(1) z tt
        using rng t(2) dig by simp
    qed
  qed
  then show ?thesis unfolding str_def r_def .
qed


lemma year_string_parts:
  assumes "- 999999 \<le> y" "y \<le> 999999"
  shows "\<exists>sg ys. year_string y = sg @ ys \<and> list_all is_digit ys
           \<and> (sg = [] \<and> length ys = 4 \<and> y = read_digits ys
             \<or> sg = ''+'' \<and> length ys = 6 \<and> y = read_digits ys
             \<or> sg = ''-'' \<and> length ys = 6 \<and> y = - read_digits ys \<and> read_digits ys \<noteq> 0)"
proof -
  consider "0 \<le> y \<and> y \<le> 9999" | "9999 < y" | "y < 0" by arith
  then show ?thesis
  proof cases
    case 1
    then have p: "length (pad 4 y) = 4" "list_all is_digit (pad 4 y)" "read_digits (pad 4 y) = y"
      by (simp_all add: pad_props)
    show ?thesis
      by (rule exI [of _ "[]"], rule exI [of _ "pad 4 y"]) (simp add: year_string_def 1 p)
  next
    case 2
    with assms have p: "length (pad 6 y) = 6" "list_all is_digit (pad 6 y)"
        "read_digits (pad 6 y) = y"
      by (simp_all add: pad_props)
    from 2 have "year_string y = ''+'' @ pad 6 y" by (simp add: year_string_def)
    then show ?thesis
      by (intro exI [of _ "''+''"] exI [of _ "pad 6 y"]) (simp add: p)
  next
    case 3
    with assms have p: "length (pad 6 (- y)) = 6" "list_all is_digit (pad 6 (- y))"
        "read_digits (pad 6 (- y)) = - y"
      by (simp_all add: pad_props)
    from 3 have "year_string y = ''-'' @ pad 6 (- y)" by (simp add: year_string_def)
    then show ?thesis
      using 3 by (intro exI [of _ "''-''"] exI [of _ "pad 6 (- y)"]) (simp add: p)
  qed
qed

lemma date_roundtrip:
  assumes "\<bar>t\<bar> \<le> maxTime"
  shows "Date_parse (toISOString t) = Some t"
proof -
  define day where "day = t div msPerDay"
  define tw where "tw = t mod msPerDay"
  define y where "y = YearFromDay day"
  define l where "l = InLeapYear y"
  define dwy where "dwy = day - DayFromYear y"
  define m where "m = MonthFromDay dwy l"
  define d where "d = dwy - month_starts l ! m + 1"
  define h where "h = tw div 3600000"
  define mi where "mi = tw div 60000 mod 60"
  define s where "s = tw div 1000 mod 60"
  define ms where "ms = tw mod 1000"
  have tw: "0 \<le> tw" "tw < 86400000" by (simp_all add: tw_def msPerDay_def)
  have t_eq: "t = day * msPerDay + tw" by (simp add: day_def tw_def)
  have tod: "h * 3600000 + mi * 60000 + s * 1000 + ms = tw" "0 \<le> h" "h \<le> 23"
    unfolding h_def mi_def s_def ms_def by (rule time_of_day [OF tw])+
  have "mi < 60" "s < 60" "ms < 1000" by (simp_all add: mi_def s_def ms_def)
  then have small: "mi \<le> 59" "s \<le> 59" "ms \<le> 999" by simp_all
  have pos: "0 \<le> mi" "0 \<le> s" "0 \<le> ms" by (simp_all add: mi_def s_def ms_def)
  have yb: "DayFromYear y \<le> day" "day < DayFromYear (y + 1)"
    using year_bracket [of day] by (simp_all add: y_def)
  have l01: "l = 0 \<or> l = 1" by (simp add: l_def InLeapYear_def)
  have dwy: "0 \<le> dwy" "dwy < 365 + l"
    using yb days_in_year [of y] by (simp_all add: dwy_def l_def)
  note mb = month_bracket [OF dwy l01, folded m_def]
  note ml = month_length [OF dwy l01, folded m_def]
  have d: "1 \<le> d" "d \<le> 31" "d \<le> (month_starts l @ [365 + l]) ! Suc m - month_starts l ! m"
    using mb ml by (simp_all add: d_def)
  have day: "- 100000000 \<le> day" "day \<le> 100000000"
  proof -
    have "msPerDay * day \<le> t" "t < msPerDay * day + msPerDay"
      unfolding day_def by (rule div_bounds, simp add: msPerDay_def)+
    with assms show "- 100000000 \<le> day" "day \<le> 100000000"
      by (simp_all add: msPerDay_def maxTime_def)
  qed
  have yr: "- 999999 \<le> y" "y \<le> 999999"
  proof -
    define A where "A = DayFromYear y"
    define B where "B = DayFromYear (y + 1)"
    have "146097 * y - 287811596 \<le> 400 * A" "400 * B \<le> 146097 * y - 287664404"
      using DayFromYear_bounds [of y] DayFromYear_bounds [of "y + 1"]
      by (simp_all add: A_def B_def algebra_simps)
    moreover have "A \<le> day" "day < B" using yb by (simp_all add: A_def B_def)
    ultimately show "- 999999 \<le> y" "y \<le> 999999" using day by arith+
  qed
  obtain sg ys where ys: "year_string y = sg @ ys" "list_all is_digit ys"
      "sg = [] \<and> length ys = 4 \<and> y = read_digits ys
       \<or> sg = ''+'' \<and> length ys = 6 \<and> y = read_digits ys
       \<or> sg = ''-'' \<and> length ys = 6 \<and> y = - read_digits ys \<and> read_digits ys \<noteq> 0"
    using year_string_parts [OF yr] by blast
  have m: "1 \<le> int m + 1" "int m + 1 \<le> 12" using mb by simp_all
  have pm: "length (pad 2 (int m + 1)) = 2" "list_all is_digit (pad 2 (int m + 1))"
      "read_digits (pad 2 (int m + 1)) = int m + 1"
    using m by (simp_all add: pad_props)
  have pd: "length (pad 2 d) = 2" "list_all is_digit (pad 2 d)" "read_digits (pad 2 d) = d"
    using d by (simp_all add: pad_props)
  have ph: "length (pad 2 h) = 2" "list_all is_digit (pad 2 h)" "read_digits (pad 2 h) = h"
    using tod by (simp_all add: pad_props)
  have pmi: "length (pad 2 mi) = 2" "list_all is_digit (pad 2 mi)" "read_digits (pad 2 mi) = mi"
    using small pos by (simp_all add: pad_props)
  have ps: "length (pad 2 s) = 2" "list_all is_digit (pad 2 s)" "read_digits (pad 2 s) = s"
    using small pos by (simp_all add: pad_props)
  have pms: "length (pad 3 ms) = 3" "list_all is_digit (pad 3 ms)" "read_digits (pad 3 ms) = ms"
    using small pos by (simp_all add: pad_props)
  have dl: "d \<le> (month_starts (InLeapYear y) @ [365 + InLeapYear y]) ! nat (int m + 1)
               - month_starts (InLeapYear y) ! nat (int m + 1 - 1)"
  proof -
    have "nat (int m + 1) = Suc m" by simp
    with d(3) show ?thesis by (simp add: l_def)
  qed
  have dd: "DayFromYear y + month_starts (InLeapYear y) ! nat (int m + 1 - 1) + d - 1 = day"
    by (simp add: d_def dwy_def l_def)
  have tt: "t = (DayFromYear y + month_starts (InLeapYear y) ! nat (int m + 1 - 1) + d - 1)
                      * msPerDay + h * 3600000 + mi * 60000 + s * 1000 + ms"
    unfolding dd using t_eq tod(1) by linarith
  have iso: "toISOString t = sg @ ys @ ''-'' @ pad 2 (int m + 1) @ ''-'' @ pad 2 d @ ''T''
      @ pad 2 h @ '':'' @ pad 2 mi @ '':'' @ pad 2 s @ ''.'' @ pad 3 ms @ ''Z''"
    unfolding toISOString_def Let_def day_def [symmetric] tw_def [symmetric] y_def [symmetric]
      l_def [symmetric] dwy_def [symmetric] m_def [symmetric] d_def [symmetric]
      h_def [symmetric] mi_def [symmetric] s_def [symmetric] ms_def [symmetric]
    by (simp only: ys(1) append_assoc)
  show ?thesis
    unfolding iso
    by (rule Date_parse_built [where m = "int m + 1" and d = d and h = h and mi = mi and s = s
          and ms = ms and y = y])
       (fact pm pd ph pmi ps pms ys m d tod small dl tt assms)+
qed

subsection \<open>Decoding an encoded value\<close>

lemma prop_order_before:
  "prop_order (ks @ [k]) \<Longrightarrow> is_index k \<Longrightarrow> k' \<in> set ks \<Longrightarrow>
   is_index k' \<and> read_digits k' < read_digits k"
proof (induction ks arbitrary: k')
  case Nil
  then show ?case by simp
next
  case (Cons a ks)
  show ?case
  proof (cases ks)
    case Nil
    with Cons.prems show ?thesis by simp
  next
    case (Cons b r)
    with Cons.prems have adj: "is_index b \<longrightarrow> is_index a \<and> read_digits a < read_digits b"
      and rest: "prop_order (ks @ [k])" by simp_all
    have b: "is_index b \<and> read_digits b < read_digits k"
      using Cons.IH [OF rest Cons.prems(2), of b] Cons by simp
    show ?thesis
    proof (cases "k' = a")
      case True
      with adj b show ?thesis by auto
    next
      case False
      with Cons.prems(3) have "k' \<in> set ks" by simp
      then show ?thesis by (rule Cons.IH [OF rest Cons.prems(2)])
    qed
  qed
qed

lemma prop_order_prefix: "prop_order (xs @ ys) \<Longrightarrow> prop_order xs"
  by (induction xs rule: prop_order.induct) simp_all

lemma insert_index_last:
  "(\<And>k'. k' \<in> set (map fst ms) \<Longrightarrow> is_index k' \<and> read_digits k' < read_digits k) \<Longrightarrow>
   insert_index ms k v = ms @ [(k, v)]"
  by (induction ms) auto

lemma obj_set_fresh:
  assumes "k \<notin> set (map fst acc)" and "prop_order (map fst acc @ [k])"
  shows "obj_set acc k v = acc @ [(k, v)]"
proof (cases "is_index k")
  case True
  have "insert_index acc k v = acc @ [(k, v)]"
    by (rule insert_index_last) (rule prop_order_before [OF assms(2) True])
  with True assms(1) show ?thesis by (simp add: obj_set_def)
next
  case False
  with assms(1) show ?thesis by (simp add: obj_set_def)
qed

lemma foldl_assign_fresh:
  "distinct (map fst (acc @ kvs)) \<Longrightarrow> ''__proto__'' \<notin> set (map fst kvs) \<Longrightarrow>
   prop_order (map fst (acc @ kvs)) \<Longrightarrow> foldl assign (VObj acc) kvs = VObj (acc @ kvs)"
proof (induction kvs arbitrary: acc)
  case Nil
  then show ?case by simp
next
  case (Cons kv kvs)
  obtain k v where kv: "kv = (k, v)" by (cases kv)
  have "prop_order ((map fst acc @ [k]) @ map fst kvs)" using Cons.prems(3) kv by simp
  then have "prop_order (map fst acc @ [k])" by (rule prop_order_prefix)
  moreover have "k \<notin> set (map fst acc)" using Cons.prems(1) kv by auto
  ultimately have "obj_set acc k v = acc @ [(k, v)]" by (rule obj_set_fresh [rotated])
  moreover have "k \<noteq> ''__proto__''" using Cons.prems(2) kv by auto
  ultimately have "assign (VObj acc) kv = VObj (acc @ [kv])"
    by (simp add: assign_def define_own_def kv)
  moreover have "foldl assign (VObj (acc @ [kv])) kvs = VObj ((acc @ [kv]) @ kvs)"
    using Cons.prems by (intro Cons.IH) auto
  ultimately show ?case by simp
qed

lemma extract_string: "extractValue (Some (JObj [(''string'', JStr s)])) = Inr (VStr s)"
  by (subst extractValue.simps) (simp add: get_prop_def)

lemma extract_int:
  "extractValue (Some (JObj [(''int'', JNum x)])) = Inr (VNum (parseInt (JNum x)))"
  by (subst extractValue.simps) (simp add: get_prop_def)

lemma extract_double:
  "extractValue (Some (JObj [(''double'', JNum x)])) = Inr (VNum (parseFloat (JNum x)))"
  by (subst extractValue.simps) (simp add: get_prop_def)

lemma extract_boolean:
  "extractValue (Some (JObj [(''boolean'', JNum (Fin (if b then 1 else 0)))])) = Inr (VBool b)"
  by (subst extractValue.simps) (simp add: get_prop_def)

lemma extract_date:
  "extractValue (Some (JObj [(''dateTime.iso8601'', JStr s)])) = Inr (VDate (Date_parse s))"
  by (subst extractValue.simps) (simp add: get_prop_def Date_new_def)

lemma extract_array:
  "extractValue (Some (JObj [(''array'', JObj [(''data'', JObj [(''value'', JArr ns)])])])) =
     (case mapE (\<lambda>v. extractValue (Some v)) ns of Inl e \<Rightarrow> Inl e | Inr values \<Rightarrow> Inr (VArr values))"
  by (subst extractValue.simps) (simp add: get_prop_def as_list_def)

lemma extract_struct:
  "extractValue (Some (JObj [(''struct'', JObj [(''member'', JArr members)])])) =
     (case mapE decode_member (map Some members) of
        Inl e \<Rightarrow> Inl e
      | Inr kvs \<Rightarrow> Inr (foldl assign (VObj []) kvs))"
  unfolding decode_member_def
  by (subst extractValue.simps) (simp add: get_prop_def as_list_opt_def)

lemma decode_member_built:
  "extractValue (Some n) = Inr v \<Longrightarrow>
   decode_member (Some (JObj [(''name'', JStr name), (''value'', n)])) = Inr (name, v)"
  by (simp add: decode_member_def get_prop_def ToPropertyKey_def)

lemma roundtrip_items:
  assumes "\<And>v. v \<in> set vs \<Longrightarrow> \<exists>n. buildValue v = Inr n \<and> extractValue (Some n) = Inr v"
  shows "\<exists>ns. mapE buildValue vs = Inr ns \<and> mapE (\<lambda>v. extractValue (Some v)) ns = Inr vs"
  using assms
proof (induction vs)
  case Nil
  then show ?case by simp
next
  case (Cons v vs)
  from Cons.prems obtain n where n: "buildValue v = Inr n" "extractValue (Some n) = Inr v"
    by auto
  from Cons obtain ns where ns: "mapE buildValue vs = Inr ns"
    "mapE (\<lambda>v. extractValue (Some v)) ns = Inr vs" by auto
  from n ns show ?case by simp
qed

lemma roundtrip_entries:
  assumes "\<And>k v. (k, v) \<in> set ms \<Longrightarrow> \<exists>n. buildValue v = Inr n \<and> extractValue (Some n) = Inr v"
  shows "\<exists>members.
           mapE (\<lambda>(name, val).
                   case buildValue val of
                     Inl e \<Rightarrow> Inl e
                   | Inr n \<Rightarrow> Inr (JObj [(''name'', JStr name), (''value'', n)])) ms = Inr members
           \<and> mapE decode_member (map Some members) = Inr ms"
  using assms
proof (induction ms)
  case Nil
  then show ?case by simp
next
  case (Cons kv ms)
  obtain k v where kv: "kv = (k, v)" by (cases kv)
  from Cons.prems kv obtain n where n: "buildValue v = Inr n" "extractValue (Some n) = Inr v"
    by auto
  from Cons obtain members where
    "mapE (\<lambda>(name, val).
             case buildValue val of
               Inl e \<Rightarrow> Inl e
             | Inr n \<Rightarrow> Inr (JObj [(''name'', JStr name), (''value'', n)])) ms = Inr members"
    "mapE decode_member (map Some members) = Inr ms" by auto
  with n kv show ?case by (simp add: decode_member_built)
qed

lemma roundtrip:
  "codec_value v \<Longrightarrow> \<exists>n. buildValue v = Inr n \<and> extractValue (Some n) = Inr v"
proof (induction v rule: buildValue.induct)
  case (1 s)
  then show ?case by (simp add: extract_string)
next
  case (2 x)
  then show ?case by (simp add: extract_int extract_double)
next
  case (3 b)
  show ?case using extract_boolean [of b] by simp
next
  case (4 d)
  then show ?case by (cases d) (simp_all add: extract_date date_roundtrip)
next
  case (5 items)
  have item: "\<exists>n. buildValue v = Inr n \<and> extractValue (Some n) = Inr v" if "v \<in> set items" for v
    using 5 that by (simp add: list_all_iff)
  have "\<exists>ns. mapE buildValue items = Inr ns \<and> mapE (\<lambda>v. extractValue (Some v)) ns = Inr items"
    by (rule roundtrip_items) (rule item)
  then obtain ns where
    "mapE buildValue items = Inr ns" "mapE (\<lambda>v. extractValue (Some v)) ns = Inr items" by blast
  then show ?case by (simp add: extract_array)
next
  case (6 entries)
  have entry: "\<exists>n. buildValue v = Inr n \<and> extractValue (Some n) = Inr v"
    if "(k, v) \<in> set entries" for k v
    using 6 that by (auto simp: list_all_iff)
  have "\<exists>members.
           mapE (\<lambda>(name, val).
                   case buildValue val of
                     Inl e \<Rightarrow> Inl e
                   | Inr n \<Rightarrow> Inr (JObj [(''name'', JStr name), (''value'', n)])) entries = Inr members
           \<and> mapE decode_member (map Some members) = Inr entries"
    by (rule roundtrip_entries) (rule entry)
  then obtain members where
    "mapE (\<lambda>(name, val).
             case buildValue val of
               Inl e \<Rightarrow> Inl e
             | Inr n \<Rightarrow> Inr (JObj [(''name'', JStr name), (''value'', n)])) entries = Inr members"
    "mapE decode_member (map Some members) = Inr entries" by blast
  moreover have "foldl assign (VObj []) entries = VObj ([] @ entries)"
    using 6(2) by (intro foldl_assign_fresh) auto
  ultimately show ?case by (simp add: extract_struct)
qed simp_all


subsection \<open>Encoding\<close>







subsection \<open>The round trip\<close>

text \<open>
  C1. Decoding the encoding of a value is meant to give the value back. The code does
  not do so on two inputs. The number \<open>10\<^sup>2\<^sup>1\<close> is integral and is sent as \<open>int\<close>;
  \<open>parseInt\<close> turns it into the string \<open>1e+21\<close> and reads the digits up to the \<open>e\<close>, so
  that it comes back as 1. An object with a property named \<open>__proto__\<close> comes back
  without it: the assignment \<open>result[name] = \<dots>\<close> with that name runs the setter of
  \<open>Object.prototype\<close> and creates no property.
\<close>

theorem codec_roundtrip_fails:
  "decode_encode (VNum (Fin (10 ^ 21))) = Inr (VNum (Fin 1))
   \<and> decode_encode (VObj [(''__proto__'', VStr ''x'')]) = Inr (VObj [])"
  by code_simp

text \<open>
  Elsewhere the round trip of a tree comes down to that of its numbers: it holds on every
  tree of strings, booleans, valid dates, arrays and objects in which no property is
  named \<open>__proto__\<close> and every number comes back from its own string. A value of the
  program has one type of number, so an integral double and an integer are the same
  value here: the number is sent as \<open>int\<close> when it is integral and as \<open>double\<close> otherwise.
\<close>

lemma codec_roundtrip:
  assumes "codec_value v"
  shows "decode_encode v = Inr v"
  using roundtrip [OF assms] by (auto simp: decode_encode_def)

lemma codec_roundtrip_example:
  "codec_value example_value \<and> decode_encode example_value = Inr example_value"
proof -
  have h: "codec_value example_value" by code_simp
  from h codec_roundtrip [OF h] show ?thesis by simp
qed

subsection \<open>Faults\<close>











text \<open>A fault whose only member is named \<open>__proto__\<close> and holds a struct has no member of
  its own; the code and the string are read from the struct, which has become its
  prototype.\<close>

lemma fault_through_prototype:
  "parseXmlRpcResponse (\<lambda>xml. Inr inherited_fault_document) []
     = Inr \<lparr>responseCode = VNum (Fin 5), responseMessage = Some (VStr ''boom''), data = None\<rparr>"
  by code_simp

subsection \<open>The HTTP exchange\<close>

text \<open>
  C5 (as amended). When the request is built and the POST is answered, \<open>call\<close> decodes the
  body with \<open>parseXmlRpcResponse\<close> if the status is 200, and throws an error whose message
  carries the status and the status text if the status is anything else, 2xx or not.
  Either way the outside world is the one the single POST left: there is no second
  request.
\<close>

theorem call_status:
  assumes "buildXmlRpcRequest io request = Inr body"
    and "http_post io w (url client) body = (Inr response, w')"
  shows "call io w client request =
           (if status response = 200
            then parseXmlRpcResponse (xml_parse io) (response_data response)
            else Inl (Error (''HTTP '' @ Number_toString (Fin (of_int (status response)))
                             @ '': '' @ statusText response)),
            w')"
  using assms by (simp add: call_def)


theorem call_status_witness:
  "buildXmlRpcRequest
       (stub_io \<lparr>status = 404, statusText = ''Not Found'', response_data = ''<xml/>''\<rparr>
          balance_document) balance_request = Inr ''<methodCall/>''
   \<and> call (stub_io \<lparr>status = 404, statusText = ''Not Found'', response_data = ''<xml/>''\<rparr>
          balance_document) 0 (the (Map_get (clients example_service) ''A'')) balance_request
       = (Inl (Error ''HTTP 404: Not Found''), 1)"
proof -
  let ?r = "\<lparr>status = 404, statusText = ''Not Found'', response_data = ''<xml/>''\<rparr>"
  let ?io = "stub_io ?r balance_document"
  let ?c = "the (Map_get (clients example_service) ''A'')"
  have b: "buildXmlRpcRequest ?io balance_request = Inr ''<methodCall/>''" by code_simp
  have p: "http_post ?io 0 (url ?c) ''<methodCall/>'' = (Inr ?r, 1)" by code_simp
  have e: "(if status ?r = 200 then parseXmlRpcResponse (xml_parse ?io) (response_data ?r)
            else Inl (Error (''HTTP '' @ Number_toString (Fin (of_int (status ?r)))
                             @ '': '' @ statusText ?r)))
           = Inl (Error ''HTTP 404: Not Found'')" by code_simp
  from call_status [OF b p] b show ?thesis by (simp only: e)
qed

text \<open>The claim as stated fails for the status 201: the body, which is decoded under
  the status 200, is not decoded, and the call throws.\<close>

theorem call_status_counterexample:
  "call (stub_io \<lparr>status = 201, statusText = ''Created'', response_data = ''<xml/>''\<rparr> balance_document) 0
     (the (Map_get (clients example_service) ''A'')) balance_request
     = (Inl (Error ''HTTP 201: Created''), 1)
   \<and> call (stub_io \<lparr>status = 200, statusText = ''Created'', response_data = ''<xml/>''\<rparr> balance_document) 0
     (the (Map_get (clients example_service) ''A'')) balance_request
     = (Inr balance_response, 1)"
  by code_simp


end
